theory Spec2Isabelle
  imports Complex_Main "HOL-Library.Word" "HOL-Library.Sublist"
begin

unbundle bit_operations_syntax

section \<open>Btune: the adaptive compression-parameter tuner of blosc2\_btune\<close>

text \<open>
  A shallow embedding of \<^verbatim>\<open>btune.c\<close> and \<^verbatim>\<open>entropy_probe.c\<close>.

  Conventions of the embedding.
  \<^item> C \<^verbatim>\<open>int\<close> counters and parameters are \<open>int\<close>; the \<^verbatim>\<open>uint32_t\<close> fields of the
    behaviour are \<open>nat\<close>, with the wrap-around written out where the code can reach it.
  \<^item> C \<^verbatim>\<open>double\<close> and \<^verbatim>\<open>float\<close> values are \<open>real\<close>: the operations are the exact ones,
    rounding is not modelled. An integer expression such as \<^verbatim>\<open>1/3\<close> is the integer
    division it is in C, written \<open>1 div 3\<close>. A quotient of doubles by zero is an
    infinity or a NaN in C and 0 in the reals: the text at the definition names the
    divisor, and the model stands for the code only where the divisor is not zero.
  \<^item> A C comparison yields the \<^verbatim>\<open>int\<close> 0 or 1; the chained comparison
    \<^verbatim>\<open>a <= x <= b\<close> is \<^verbatim>\<open>(a <= x) <= b\<close> and is written \<open>of_bool (a \<le> x) \<le> b\<close>.
  \<^item> The fixed-capacity arrays of \<^verbatim>\<open>btune_struct\<close> are functions from the index to the
    entry, together with the count the code keeps beside them.
  \<^item> \<^verbatim>\<open>assert\<close> is the no-op of a release build (\<^verbatim>\<open>NDEBUG\<close>); tracing to stdout is
    not part of the state.
  \<^item> Where C leaves an operation undefined (a remainder by zero, a conversion of an
    infinite value to \<^verbatim>\<open>int\<close>), the text at the definition says what the model does.
  \<^item> The headers \<^verbatim>\<open>btune.h\<close> and \<^verbatim>\<open>btune-private.h\<close> are not among the sources; the
    records below list the fields that the code reads and writes.
\<close>

subsection \<open>Constants of the compression library\<close>

text \<open>Codec, filter and split-mode identifiers of c-blosc2 (\<^verbatim>\<open>blosc2.h\<close>).\<close>

definition BLOSC_BLOSCLZ :: int where "BLOSC_BLOSCLZ = 0"
definition BLOSC_LZ4 :: int where "BLOSC_LZ4 = 1"
definition BLOSC_LZ4HC :: int where "BLOSC_LZ4HC = 2"
definition BLOSC_ZLIB :: int where "BLOSC_ZLIB = 4"
definition BLOSC_ZSTD :: int where "BLOSC_ZSTD = 5"

definition BLOSC_NOFILTER :: int where "BLOSC_NOFILTER = 0"
definition BLOSC_SHUFFLE :: int where "BLOSC_SHUFFLE = 1"
definition BLOSC_BITSHUFFLE :: int where "BLOSC_BITSHUFFLE = 2"
definition BLOSC_FILTER_BYTEDELTA :: int where "BLOSC_FILTER_BYTEDELTA = 34"

definition BLOSC_ALWAYS_SPLIT :: int where "BLOSC_ALWAYS_SPLIT = 1"
definition BLOSC_NEVER_SPLIT :: int where "BLOSC_NEVER_SPLIT = 2"
definition BLOSC_AUTO_SPLIT :: int where "BLOSC_AUTO_SPLIT = 3"

definition BLOSC2_MAX_FILTERS :: nat where "BLOSC2_MAX_FILTERS = 6"
definition BLOSC2_MAX_OVERHEAD :: nat where "BLOSC2_MAX_OVERHEAD = 32"

lemmas blosc_ids =
  BLOSC_BLOSCLZ_def BLOSC_LZ4_def BLOSC_LZ4HC_def BLOSC_ZLIB_def BLOSC_ZSTD_def
  BLOSC_NOFILTER_def BLOSC_SHUFFLE_def BLOSC_BITSHUFFLE_def BLOSC_FILTER_BYTEDELTA_def
  BLOSC_ALWAYS_SPLIT_def BLOSC_NEVER_SPLIT_def BLOSC_AUTO_SPLIT_def

subsection \<open>Internal control constants (the anonymous enum of btune.c)\<close>

definition BTUNE_KB :: nat where "BTUNE_KB = 1024"
definition MIN_BITSHUFFLE :: int where "MIN_BITSHUFFLE = 1"
definition MIN_SHUFFLE :: int where "MIN_SHUFFLE = 2"
definition MAX_SHUFFLE :: int where "MAX_SHUFFLE = 16"
definition MIN_THREADS :: int where "MIN_THREADS = 1"
definition SOFT_STEP_SIZE :: int where "SOFT_STEP_SIZE = 1"
definition HARD_STEP_SIZE :: int where "HARD_STEP_SIZE = 2"
definition MAX_STATE_THREADS :: int where "MAX_STATE_THREADS = 50"

definition BTUNE_ENABLE_SHUFFLESIZE :: bool where "BTUNE_ENABLE_SHUFFLESIZE = False"
definition BTUNE_ENABLE_MEMCPY :: bool where "BTUNE_ENABLE_MEMCPY = False"
definition BTUNE_ENABLE_THREADS :: bool where "BTUNE_ENABLE_THREADS = True"

lemmas btune_consts =
  BTUNE_KB_def MIN_BITSHUFFLE_def MIN_SHUFFLE_def MAX_SHUFFLE_def MIN_THREADS_def
  SOFT_STEP_SIZE_def HARD_STEP_SIZE_def MAX_STATE_THREADS_def
  BTUNE_ENABLE_SHUFFLESIZE_def BTUNE_ENABLE_MEMCPY_def BTUNE_ENABLE_THREADS_def

subsection \<open>C arithmetic\<close>

text \<open>
  Integer division and remainder of C truncate towards zero; conversion to an unsigned
  or to a narrower signed type wraps.
\<close>

definition c_div :: "int \<Rightarrow> int \<Rightarrow> int" where
  "c_div a b = sgn a * sgn b * (\<bar>a\<bar> div \<bar>b\<bar>)"

definition c_mod :: "int \<Rightarrow> int \<Rightarrow> int" where
  "c_mod a b = a - b * c_div a b"

definition to_u32 :: "int \<Rightarrow> nat" where
  "to_u32 x = nat (x mod 2 ^ 32)"

definition to_size_t :: "int \<Rightarrow> nat" where
  "to_size_t x = nat (x mod 2 ^ 64)"

definition to_int16 :: "int \<Rightarrow> int" where
  "to_int16 x = sint (word_of_int x :: 16 word)"

subsection \<open>Data model\<close>

datatype btune_performance_mode =
  BTUNE_PERF_COMP | BTUNE_PERF_DECOMP | BTUNE_PERF_BALANCED | BTUNE_PERF_AUTO

datatype btune_repeat_mode = BTUNE_STOP | BTUNE_REPEAT_SOFT | BTUNE_REPEAT_ALL

datatype btune_state = CODEC_FILTER | SHUFFLE_SIZE | THREADS | CLEVEL | MEMCPY | WAITING | STOP

datatype readapt_type = HARD | SOFT | WAIT

record btune_behaviour =
  nwaits_before_readapt :: nat
  nsofts_before_hard :: nat
  nhards_before_stop :: nat
  repeat_mode :: btune_repeat_mode

record btune_config =
  bandwidth :: nat
  perf_mode :: btune_performance_mode
  tradeoff :: real
  behaviour :: btune_behaviour
  cparams_hint :: bool
  use_inference :: int

record cparams_btune =
  compcode :: int
  filter' :: int
  splitmode :: int
  clevel :: int
  blocksize :: int
  shufflesize :: int
  nthreads_comp :: int
  nthreads_decomp :: int
  increasing_clevel :: bool
  increasing_block :: bool
  increasing_shuffle :: bool
  increasing_nthreads :: bool
  score :: real
  cratio :: real
  ctime :: real
  dtime :: real

text \<open>The decompression context, as far as the tuner touches it.\<close>

record blosc2_dctx =
  d_nthreads :: int
  d_new_nthreads :: int

text \<open>
  The compression context \<^verbatim>\<open>blosc2_context\<close>, as far as the tuner touches it.
  \<open>ctx_dest_null\<close> is \<^verbatim>\<open>context->dest == NULL\<close>; the two \<open>schunk_\<close> fields are
  \<^verbatim>\<open>context->schunk->typesize\<close> and \<^verbatim>\<open>context->schunk->nchunks\<close>.
\<close>

record blosc2_context =
  ctx_compcode :: int
  ctx_filters :: "int list"
  ctx_filters_meta :: "int list"
  ctx_splitmode :: int
  ctx_clevel :: int
  ctx_blocksize :: int
  ctx_typesize :: int
  ctx_nthreads :: int
  ctx_new_nthreads :: int
  ctx_sourcesize :: int
  ctx_destsize :: nat
  ctx_dest_null :: bool
  schunk_typesize :: int
  schunk_nchunks :: int

text \<open>
  The tuner state \<^verbatim>\<open>btune_struct\<close>. \<open>best\<close> and \<open>aux_cparams\<close> are two separately
  allocated tuples, so they are two fields by value. \<open>dctx\<close> is the caller's
  decompression context (\<open>None\<close> for \<^verbatim>\<open>NULL\<close>).
\<close>

record btune_struct =
  config :: btune_config
  codecs :: "int \<Rightarrow> int"
  ncodecs :: int
  filters :: "int \<Rightarrow> int"
  nfilters :: int
  clevels :: "int \<Rightarrow> int"
  nclevels :: int
  clevel_index :: int
  bt_splitmode :: int
  state :: btune_state
  readapt_from :: readapt_type
  step_size :: int
  nsofts :: int
  nhards :: int
  nwaitings :: int
  steps_count :: int
  aux_index :: int
  rep_index :: int
  is_repeating :: bool
  threads_for_comp :: bool
  best :: cparams_btune
  aux_cparams :: cparams_btune
  current_scores :: "int \<Rightarrow> real"
  current_cratios :: "int \<Rightarrow> real"
  max_threads :: int
  bt_nthreads_decomp :: int
  dctx :: "blosc2_dctx option"
  inference_count :: int
  inference_ended :: bool

definition cparams_btune_default :: cparams_btune where
  "cparams_btune_default = \<lparr>
     compcode = BLOSC_LZ4, filter' = BLOSC_SHUFFLE, splitmode = BLOSC_ALWAYS_SPLIT,
     clevel = 9, blocksize = 0, shufflesize = 0, nthreads_comp = 0, nthreads_decomp = 0,
     increasing_clevel = False, increasing_block = True, increasing_shuffle = True,
     increasing_nthreads = True, score = 100, cratio = 1, ctime = 100, dtime = 100 \<rparr>"

subsection \<open>Scoring and the improvement oracle\<close>

text \<open>
  \<^verbatim>\<open>score_function\<close>: the score of a step, by performance mode. The divisions are
  those of \<^verbatim>\<open>double\<close> by the \<^verbatim>\<open>bandwidth\<close> of the configuration, which nothing
  validates. At a bandwidth of 0 the code's quotient is an infinity or a NaN, which
  the reals do not have (the real quotient by 0 is 0), so the model stands for the
  code only at a positive bandwidth, and the properties of the score assume one.
\<close>

definition score_function :: "btune_struct \<Rightarrow> real \<Rightarrow> nat \<Rightarrow> real \<Rightarrow> real" where
  "score_function btune_params ctime' cbytes dtime' =
     (let reduced_cbytes = real cbytes / real BTUNE_KB in
      case perf_mode (config btune_params) of
        BTUNE_PERF_COMP \<Rightarrow> ctime' + reduced_cbytes / real (bandwidth (config btune_params))
      | BTUNE_PERF_DECOMP \<Rightarrow> reduced_cbytes / real (bandwidth (config btune_params)) + dtime'
      | BTUNE_PERF_BALANCED \<Rightarrow>
          ctime' + reduced_cbytes / real (bandwidth (config btune_params)) + dtime'
      | BTUNE_PERF_AUTO \<Rightarrow> -1)"

text \<open>\<^verbatim>\<open>mean\<close>: the loop sums \<^verbatim>\<open>array[0..size-1]\<close>.\<close>

definition mean :: "(int \<Rightarrow> real) \<Rightarrow> nat \<Rightarrow> real" where
  "mean array size' = (\<Sum>i \<leftarrow> [0..<size']. array (int i)) / real size'"

text \<open>
  \<^verbatim>\<open>has_improved\<close>. The band tests are \<^verbatim>\<open>tradeoff <= 1/3\<close> and \<^verbatim>\<open>tradeoff <= 2/3\<close> with
  integer quotients.
\<close>

definition has_improved :: "btune_struct \<Rightarrow> real \<Rightarrow> real \<Rightarrow> bool" where
  "has_improved btune_params score_coef cratio_coef =
     (let tradeoff' = tradeoff (config btune_params) in
      if tradeoff' \<le> real_of_int (1 div 3) then
        (cratio_coef > 1 \<and> score_coef > 1) \<or>
        (cratio_coef > 5 / 10 \<and> score_coef > 2) \<or>
        (cratio_coef > 67 / 100 \<and> score_coef > 13 / 10) \<or>
        (cratio_coef > 2 \<and> score_coef > 7 / 10)
      else if tradeoff' \<le> real_of_int (2 div 3) then
        (cratio_coef > 1 \<and> score_coef > 1) \<or>
        (cratio_coef > 11 / 10 \<and> score_coef > 8 / 10) \<or>
        (cratio_coef > 13 / 10 \<and> score_coef > 5 / 10)
      else if tradeoff' \<le> 1 then cratio_coef > 1
      else False)"

text \<open>
  The rule that the specification gives for the BALANCED band, in its own words:
  true iff \<open>(cr > 1 \<and> s > 1) \<or> (cr > 1.1 \<and> s > 0.8) \<or> (cr > 1.3 \<and> s > 0.5)\<close>.
\<close>

definition spec_balanced_rule :: "real \<Rightarrow> real \<Rightarrow> bool" where
  "spec_balanced_rule score_coef cratio_coef \<longleftrightarrow>
     (cratio_coef > 1 \<and> score_coef > 1) \<or>
     (cratio_coef > 11 / 10 \<and> score_coef > 8 / 10) \<or>
     (cratio_coef > 13 / 10 \<and> score_coef > 5 / 10)"

subsection \<open>Codec, filter and level tables\<close>

text \<open>The first \<open>n\<close> entries of an array.\<close>

definition entries :: "(int \<Rightarrow> 'a) \<Rightarrow> int \<Rightarrow> 'a list" where
  "entries array n = map array [0..n - 1]"

definition add_codec :: "btune_struct \<Rightarrow> int \<Rightarrow> btune_struct" where
  "add_codec btune_params compcode' =
     (if compcode' \<in> set (entries (codecs btune_params) (ncodecs btune_params))
      then btune_params
      else btune_params\<lparr> codecs := (codecs btune_params)(ncodecs btune_params := compcode'),
                          ncodecs := ncodecs btune_params + 1 \<rparr>)"

definition add_filter :: "btune_struct \<Rightarrow> int \<Rightarrow> btune_struct" where
  "add_filter btune_params flt =
     (if flt \<in> set (entries (filters btune_params) (nfilters btune_params))
      then btune_params
      else btune_params\<lparr> filters := (filters btune_params)(nfilters btune_params := flt),
                          nfilters := nfilters btune_params + 1 \<rparr>)"

text \<open>\<^verbatim>\<open>strstr(haystack, needle) != NULL\<close>.\<close>

fun strstr_found :: "string \<Rightarrow> string \<Rightarrow> bool" where
  "strstr_found [] needle = (needle = [])"
| "strstr_found (c # cs) needle = (prefix needle (c # cs) \<or> strstr_found cs needle)"

text \<open>
  \<^verbatim>\<open>btune_init_codecs\<close>; \<open>all_codecs\<close> is the string that
  \<^verbatim>\<open>blosc2_list_compressors()\<close> returns.
\<close>

definition btune_init_codecs :: "string \<Rightarrow> btune_struct \<Rightarrow> btune_struct" where
  "btune_init_codecs all_codecs btune_params =
     (if 666666 / 1000000 \<le> tradeoff (config btune_params) then
        (let b1 = (if strstr_found all_codecs ''zstd''
                   then add_codec btune_params BLOSC_ZSTD else btune_params)
         in if strstr_found all_codecs ''zlib'' then add_codec b1 BLOSC_ZLIB else b1)
      else
        (let b1 = add_codec btune_params BLOSC_LZ4;
             b2 = (if 333333 / 1000000 \<le> tradeoff (config btune_params)
                   then add_codec b1 BLOSC_BLOSCLZ else b1)
         in if perf_mode (config btune_params) = BTUNE_PERF_DECOMP
            then add_codec b2 BLOSC_LZ4HC else b2))"

text \<open>
  \<^verbatim>\<open>btune_init_clevels\<close>. \<open>allocated\<close> says whether \<^verbatim>\<open>best\<close> and \<^verbatim>\<open>aux_cparams\<close>
  are non-NULL: at the call in \<^verbatim>\<open>btune_init\<close> they are not allocated yet.
\<close>

definition clevels_step :: "int \<Rightarrow> int \<Rightarrow> int \<Rightarrow> btune_struct \<Rightarrow> btune_struct" where
  "clevels_step mn start i btune_params =
     (let b = btune_params\<lparr> clevels := (clevels btune_params)(i := mn + i) \<rparr>
      in if mn + i = start then b\<lparr> clevel_index := i \<rparr> else b)"

definition btune_init_clevels ::
  "bool \<Rightarrow> btune_struct \<Rightarrow> int \<Rightarrow> int \<Rightarrow> int \<Rightarrow> btune_struct" where
  "btune_init_clevels allocated btune_params mn mx start =
     (let b1 = (if allocated
                then btune_params\<lparr> best := (best btune_params)\<lparr> clevel := start \<rparr>,
                                   aux_cparams := (aux_cparams btune_params)\<lparr> clevel := start \<rparr> \<rparr>
                else btune_params);
          b2 = b1\<lparr> nclevels := mx - mn + 1 \<rparr>
      in fold (clevels_step mn start) [0..nclevels b2 - 1] b2)"

text \<open>\<^verbatim>\<open>extract_btune_cparams\<close>: the tuple that the context currently holds.\<close>

definition extract_btune_cparams ::
  "blosc2_context \<Rightarrow> btune_struct \<Rightarrow> cparams_btune \<Rightarrow> cparams_btune" where
  "extract_btune_cparams context btune_params cparams =
     cparams\<lparr> compcode := ctx_compcode context,
              filter' := ctx_filters context ! (BLOSC2_MAX_FILTERS - 1),
              clevel := ctx_clevel context,
              splitmode := ctx_splitmode context,
              blocksize := ctx_blocksize context,
              shufflesize := ctx_typesize context,
              nthreads_comp := ctx_nthreads context,
              nthreads_decomp :=
                (case dctx btune_params of
                   None \<Rightarrow> bt_nthreads_decomp btune_params
                 | Some d \<Rightarrow> d_nthreads d) \<rparr>"

subsection \<open>Direction guards and readapt starts\<close>

definition has_ended_clevel :: "btune_struct \<Rightarrow> bool" where
  "has_ended_clevel btune_params =
     (let max_clevel = nclevels btune_params;
          clevel_index' = clevel_index btune_params;
          step_size' = step_size btune_params
      in if increasing_clevel (best btune_params)
         then clevel_index' + step_size' \<ge> max_clevel
         else clevel_index' - step_size' < 0)"

definition has_ended_shuffle :: "cparams_btune \<Rightarrow> bool" where
  "has_ended_shuffle best' =
     (let min_shuffle = (if filter' best' = BLOSC_SHUFFLE then MIN_SHUFFLE else MIN_BITSHUFFLE)
      in (increasing_shuffle best' \<and> shufflesize best' = MAX_SHUFFLE) \<or>
         (\<not> increasing_shuffle best' \<and> shufflesize best' = min_shuffle))"

definition has_ended_threads :: "btune_struct \<Rightarrow> bool" where
  "has_ended_threads btune_params =
     (let best' = best btune_params;
          nthreads = (if threads_for_comp btune_params
                      then nthreads_comp best' else nthreads_decomp best')
      in (increasing_nthreads best' \<and> nthreads = max_threads btune_params) \<or>
         (\<not> increasing_nthreads best' \<and> nthreads = MIN_THREADS))"

definition flip_clevel :: "btune_struct \<Rightarrow> btune_struct" where
  "flip_clevel btune_params =
     btune_params\<lparr> best := (best btune_params)
       \<lparr> increasing_clevel := \<not> increasing_clevel (best btune_params) \<rparr> \<rparr>"

definition flip_shuffle :: "btune_struct \<Rightarrow> btune_struct" where
  "flip_shuffle btune_params =
     btune_params\<lparr> best := (best btune_params)
       \<lparr> increasing_shuffle := \<not> increasing_shuffle (best btune_params) \<rparr> \<rparr>"

definition flip_nthreads :: "btune_struct \<Rightarrow> btune_struct" where
  "flip_nthreads btune_params =
     btune_params\<lparr> best := (best btune_params)
       \<lparr> increasing_nthreads := \<not> increasing_nthreads (best btune_params) \<rparr> \<rparr>"

definition init_soft :: "btune_struct \<Rightarrow> btune_struct" where
  "init_soft btune_params =
     (let b = (if has_ended_clevel btune_params then flip_clevel btune_params else btune_params)
      in b\<lparr> state := CLEVEL, step_size := SOFT_STEP_SIZE, readapt_from := SOFT \<rparr>)"

definition init_hard :: "btune_struct \<Rightarrow> btune_struct" where
  "init_hard btune_params =
     (let b = btune_params\<lparr> state := CODEC_FILTER, step_size := HARD_STEP_SIZE,
                            readapt_from := HARD,
                            threads_for_comp :=
                              (perf_mode (config btune_params) \<noteq> BTUNE_PERF_DECOMP) \<rparr>
      in if has_ended_shuffle (best b) then flip_shuffle b else b)"

text \<open>
  \<^verbatim>\<open>init_without_hards\<close>. The cases of the \<^verbatim>\<open>switch\<close> fall through: REPEAT\_ALL into
  REPEAT\_SOFT into STOP, each when its own test fails.
\<close>

definition init_without_hards :: "btune_struct \<Rightarrow> btune_struct" where
  "init_without_hards btune_params =
     (let behaviour' = behaviour (config btune_params);
          minimum_hards = (if \<not> cparams_hint (config btune_params) then 1 else 0 :: nat);
          case_stop =
            (if minimum_hards = 0 \<and> nsofts_before_hard behaviour' > 0
             then init_soft btune_params
             else btune_params\<lparr> state := STOP, readapt_from := WAIT \<rparr>);
          case_soft =
            (if nsofts_before_hard behaviour' > 0 then init_soft btune_params else case_stop);
          case_all =
            (if nhards_before_stop behaviour' > minimum_hards
             then init_hard btune_params else case_soft);
          b = (case repeat_mode behaviour' of
                 BTUNE_REPEAT_ALL \<Rightarrow> case_all
               | BTUNE_REPEAT_SOFT \<Rightarrow> case_soft
               | BTUNE_STOP \<Rightarrow> case_stop)
      in b\<lparr> is_repeating := True \<rparr>)"

subsection \<open>Initialisation\<close>

text \<open>
  The environment that \<^verbatim>\<open>btune_init\<close> reads: \<^verbatim>\<open>getenv("BTUNE_PERF_MODE")\<close> and the
  value that \<^verbatim>\<open>atof\<close> gives for \<^verbatim>\<open>getenv("BTUNE_TRADEOFF")\<close>.
\<close>

record btune_env =
  env_perf_mode :: "string option"
  env_tradeoff :: "real option"

text \<open>
  The \<^verbatim>\<open>calloc\<close>'ed structure with the configuration copied in. The two tuple pointers
  are NULL at this point; the fields hold the default tuple that \<^verbatim>\<open>btune_init\<close>
  copies into them at allocation.
\<close>

definition btune_calloc :: "btune_config \<Rightarrow> btune_struct" where
  "btune_calloc cfg = \<lparr>
     config = cfg, codecs = (\<lambda>_. 0), ncodecs = 0, filters = (\<lambda>_. 0), nfilters = 0,
     clevels = (\<lambda>_. 0), nclevels = 0, clevel_index = 0, bt_splitmode = 0,
     state = CODEC_FILTER, readapt_from = HARD, step_size = 0, nsofts = 0, nhards = 0,
     nwaitings = 0, steps_count = 0, aux_index = 0, rep_index = 0, is_repeating = False,
     threads_for_comp = False, best = cparams_btune_default,
     aux_cparams = cparams_btune_default, current_scores = (\<lambda>_. 0),
     current_cratios = (\<lambda>_. 0), max_threads = 0, bt_nthreads_decomp = 0, dctx = None,
     inference_count = 0, inference_ended = False \<rparr>"

definition resolve_perf_mode :: "btune_env \<Rightarrow> btune_performance_mode \<Rightarrow> btune_performance_mode"
  where
  "resolve_perf_mode env pm =
     (if pm = BTUNE_PERF_AUTO then
        (case env_perf_mode env of
           Some s \<Rightarrow>
             if s = ''COMP'' then BTUNE_PERF_COMP
             else if s = ''DECOMP'' then BTUNE_PERF_DECOMP
             else if s = ''BALANCED'' then BTUNE_PERF_BALANCED
             else BTUNE_PERF_COMP
         | None \<Rightarrow> BTUNE_PERF_COMP)
      else pm)"

definition resolve_tradeoff :: "btune_config \<Rightarrow> btune_env \<Rightarrow> real \<Rightarrow> real" where
  "resolve_tradeoff defaults env t =
     (let t1 = (case env_tradeoff env of Some v \<Rightarrow> v | None \<Rightarrow> t)
      in if t1 < 0 \<or> t1 > 1 then tradeoff defaults else t1)"

text \<open>The branch of \<^verbatim>\<open>btune_init\<close> taken with \<^verbatim>\<open>cparams_hint\<close>.\<close>

definition init_with_hint :: "blosc2_context \<Rightarrow> btune_struct \<Rightarrow> btune_struct" where
  "init_with_hint cctx btune =
     (let b1 = btune\<lparr> best := extract_btune_cparams cctx btune (best btune) \<rparr>;
          b2 = b1\<lparr> aux_cparams := extract_btune_cparams cctx b1 (aux_cparams b1) \<rparr>;
          b3 = add_codec b2 (ctx_compcode cctx);
          behaviour' = behaviour (config b3)
      in if nhards_before_stop behaviour' > 0 then
           (if nsofts_before_hard behaviour' > 0 then init_soft b3
            else if nwaits_before_readapt behaviour' > 0
              then b3\<lparr> state := WAITING, readapt_from := WAIT \<rparr>
            else init_hard b3)
         else init_without_hards b3)"

text \<open>
  \<^verbatim>\<open>btune_init\<close>, in three stages. First the configuration is copied and resolved
  against the environment, and the codec, filter and level tables and the counters
  are set. \<open>defaults\<close> is \<^verbatim>\<open>BTUNE_CONFIG_DEFAULTS\<close> (declared in btune.h) and
  \<open>config0\<close> the configuration copied in.
\<close>

definition init_tables ::
  "btune_config \<Rightarrow> btune_env \<Rightarrow> string \<Rightarrow> btune_config \<Rightarrow> blosc2_dctx option \<Rightarrow> btune_struct"
  where
  "init_tables defaults env all_codecs config0 dctx' =
     (let b0 = btune_calloc config0;
          b1 = b0\<lparr> config := config0\<lparr> perf_mode := resolve_perf_mode env (perf_mode config0),
                                      tradeoff := resolve_tradeoff defaults env (tradeoff config0) \<rparr>,
                   dctx := dctx' \<rparr>;
          b2 = btune_init_codecs all_codecs b1;
          b3 = add_filter (add_filter (add_filter b2 BLOSC_NOFILTER) BLOSC_SHUFFLE)
                 BLOSC_BITSHUFFLE;
          b4 = btune_init_clevels False (b3\<lparr> bt_splitmode := BLOSC_AUTO_SPLIT \<rparr>) 1 9 9
      in b4\<lparr> rep_index := 0, aux_index := 0, steps_count := 0, nsofts := 0, nhards := 0,
              nwaitings := 0, is_repeating := False \<rparr>)"

text \<open>
  Then the two tuples are allocated and filled, both in the same way, and the thread
  bounds are taken from the contexts. The test \<^verbatim>\<open>2/3 <= tradeoff <= 1.\<close> is the
  chained comparison.
\<close>

definition init_tuples ::
  "blosc2_context \<Rightarrow> blosc2_dctx option \<Rightarrow> btune_struct \<Rightarrow> btune_struct" where
  "init_tuples cctx dctx' btune =
     (let t0 = cparams_btune_default\<lparr> compcode := codecs btune 0 \<rparr>;
          t1 = (if (of_bool (real_of_int (2 div 3) \<le> tradeoff (config btune)) :: real) \<le> 1
                then t0\<lparr> clevel := 8 \<rparr> else t0);
          t2 = t1\<lparr> shufflesize := ctx_typesize cctx, nthreads_comp := ctx_nthreads cctx \<rparr>;
          t3 = (case dctx' of
                  Some d \<Rightarrow> t2\<lparr> nthreads_decomp := d_nthreads d \<rparr>
                | None \<Rightarrow> t2\<lparr> nthreads_decomp := ctx_nthreads cctx \<rparr>);
          b6 = (case dctx' of
                  Some d \<Rightarrow>
                    btune\<lparr> max_threads := (if ctx_nthreads cctx > d_nthreads d
                                            then ctx_nthreads cctx else d_nthreads d),
                           bt_nthreads_decomp := d_nthreads d \<rparr>
                | None \<Rightarrow>
                    btune\<lparr> max_threads := ctx_nthreads cctx,
                           bt_nthreads_decomp := ctx_nthreads cctx \<rparr>)
      in b6\<lparr> best := t3, aux_cparams := t3,
              threads_for_comp := (perf_mode (config b6) \<noteq> BTUNE_PERF_DECOMP) \<rparr>)"

text \<open>
  Last the first readapt is started: from the hint, or a hard readapt with
  \<^verbatim>\<open>nhards_before_stop\<close> incremented (an \<^verbatim>\<open>uint32_t\<close>); then the step size is set.
\<close>

definition init_readapt :: "bool \<Rightarrow> blosc2_context \<Rightarrow> btune_struct \<Rightarrow> btune_struct" where
  "init_readapt hint cctx btune =
     (let b8 = (if hint then init_with_hint cctx btune
                else (let h = init_hard btune;
                          bh = behaviour (config h)
                      in h\<lparr> config := (config h)\<lparr> behaviour :=
                             bh\<lparr> nhards_before_stop :=
                                    (nhards_before_stop bh + 1) mod 2 ^ 32 \<rparr> \<rparr> \<rparr>))
      in b8\<lparr> step_size := (if nhards_before_stop (behaviour (config b8)) = 1
                             then SOFT_STEP_SIZE else HARD_STEP_SIZE) \<rparr>)"

text \<open>
  \<open>tuner_params\<close> is the caller's configuration (\<open>None\<close> for NULL), and \<open>icount\<close> the
  \<^verbatim>\<open>inference_count\<close> that \<^verbatim>\<open>btune_model_init\<close> (btune\_model.cpp) leaves: 0 when
  inference is disabled.
\<close>

definition btune_init ::
  "btune_config \<Rightarrow> btune_env \<Rightarrow> string \<Rightarrow> int \<Rightarrow> btune_config option \<Rightarrow>
   blosc2_context \<Rightarrow> blosc2_dctx option \<Rightarrow> btune_struct" where
  "btune_init defaults env all_codecs icount tuner_params cctx dctx' =
     (let config0 = (case tuner_params of None \<Rightarrow> defaults | Some c \<Rightarrow> c);
          b5 = init_tables defaults env all_codecs config0 dctx';
          b7 = init_tuples cctx dctx' b5;
          b9 = init_readapt (cparams_hint config0) cctx b7
      in b9\<lparr> inference_count := icount \<rparr>)"

text \<open>The codecs that the search cycles over: the first \<open>ncodecs\<close> entries.\<close>

definition admissible_codecs :: "btune_struct \<Rightarrow> int list" where
  "admissible_codecs btune_params = entries (codecs btune_params) (ncodecs btune_params)"

subsection \<open>Proposing parameters\<close>

text \<open>
  \<^verbatim>\<open>set_btune_cparams\<close> writes the tuple into the context. The tuple is passed by
  pointer and its \<^verbatim>\<open>clevel\<close> may be rewritten, so the tuple is returned too. The two
  band tests are the chained comparisons \<^verbatim>\<open>1/3 <= tradeoff <= 2/3\<close> and
  \<^verbatim>\<open>2/3 <= tradeoff <= 1.0\<close>.
\<close>

definition set_btune_cparams ::
  "blosc2_context \<Rightarrow> btune_struct \<Rightarrow> cparams_btune \<Rightarrow>
   blosc2_context \<times> btune_struct \<times> cparams_btune" where
  "set_btune_cparams context btune_params cparams =
     (let c1 = context\<lparr> ctx_compcode := compcode cparams,
                        ctx_filters := (replicate BLOSC2_MAX_FILTERS 0)
                                         [BLOSC2_MAX_FILTERS - 1 := filter' cparams] \<rparr>;
          c2 = (if filter' cparams = BLOSC_FILTER_BYTEDELTA
                then c1\<lparr> ctx_filters := (ctx_filters c1)[BLOSC2_MAX_FILTERS - 2 := BLOSC_SHUFFLE],
                         ctx_filters_meta := (ctx_filters_meta c1)
                           [BLOSC2_MAX_FILTERS - 1 := schunk_typesize context mod 256] \<rparr>
                else c1);
          c3 = c2\<lparr> ctx_splitmode := splitmode cparams, ctx_clevel := clevel cparams \<rparr>;
          t = tradeoff (config btune_params);
          p1 = (if (of_bool (real_of_int (1 div 3) \<le> t) :: int) \<le> 2 div 3 \<and>
                   (compcode cparams = BLOSC_ZSTD \<or> compcode cparams = BLOSC_ZLIB) \<and>
                   clevel cparams \<ge> 3
                then cparams\<lparr> clevel := 3 \<rparr> else cparams);
          p2 = (if (of_bool (real_of_int (2 div 3) \<le> t) :: real) \<le> 1 \<and> clevel p1 \<ge> 6
                then p1\<lparr> clevel := 6 \<rparr> else p1);
          c4 = (if blocksize p2 \<noteq> 0 then c3\<lparr> ctx_blocksize := blocksize p2 \<rparr> else c3);
          c5 = c4\<lparr> ctx_typesize := shufflesize p2,
                   ctx_new_nthreads := to_int16 (nthreads_comp p2) \<rparr>;
          b = (case dctx btune_params of
                 Some d \<Rightarrow> btune_params\<lparr> dctx :=
                             Some (d\<lparr> d_new_nthreads := to_int16 (nthreads_decomp p2) \<rparr>) \<rparr>
               | None \<Rightarrow> btune_params\<lparr> bt_nthreads_decomp := nthreads_decomp p2 \<rparr>)
      in (c5, b, p2))"

text \<open>
  The result of the inference front-end (\<^verbatim>\<open>btune_model_inference\<close> or \<^verbatim>\<open>most_predicted\<close>
  of btune\_model.cpp) when \<^verbatim>\<open>btune_next_cparams\<close> calls it: \<open>Some (compcode, filter,
  clevel, splitmode)\<close> when it returns 0, \<open>None\<close> when it returns an error.
\<close>

type_synonym prediction = "(int \<times> int \<times> int \<times> int) option"

text \<open>The inference prologue of \<^verbatim>\<open>btune_next_cparams\<close>, up to the copy of \<^verbatim>\<open>best\<close>.\<close>

definition apply_inference :: "prediction \<Rightarrow> btune_struct \<Rightarrow> btune_struct" where
  "apply_inference inferred btune_params =
     (let config' = config btune_params;
          called = (inference_count btune_params \<noteq> 0 \<or> \<not> inference_ended btune_params);
          b1 = (if inference_count btune_params \<noteq> 0 then
                  (if inference_count btune_params > 0
                   then btune_params\<lparr> inference_count := inference_count btune_params - 1 \<rparr>
                   else btune_params)
                else if \<not> inference_ended btune_params
                  then btune_params\<lparr> inference_ended := True \<rparr>
                else btune_params)
      in case (if called then inferred else None) of
           None \<Rightarrow> b1
         | Some (compcode', flt, clevel', splitmode') \<Rightarrow>
             (let b2 = b1\<lparr> codecs := (codecs b1)(0 := compcode'), ncodecs := 1,
                          filters := (filters b1)(0 := flt), nfilters := 1 \<rparr>
              in if perf_mode config' = BTUNE_PERF_DECOMP
                 then btune_init_clevels True b2 clevel' clevel' clevel'
                 else (let mn = (if clevel' > 1 then clevel' - 1 else clevel');
                           mx = (if clevel' < 9 then clevel' + 1 else clevel')
                       in btune_init_clevels True b2 mn mx clevel')))"

text \<open>
  The \<^verbatim>\<open>switch\<close> of \<^verbatim>\<open>btune_next_cparams\<close> for the states other than STOP. The
  candidate \<^verbatim>\<open>cparams\<close> is the tuple \<^verbatim>\<open>aux_cparams\<close> points to. In the state
  CODEC\_FILTER the index is divided by \<^verbatim>\<open>nfilters * 2\<close>, which is at least 2 once
  init has added its filters (C leaves the division by zero undefined; \<open>c_div\<close> gives 0).
\<close>

definition tune_step :: "btune_struct \<Rightarrow> btune_struct" where
  "tune_step btune_params =
     (let cparams = aux_cparams btune_params in
      case state btune_params of
        CODEC_FILTER \<Rightarrow>
          (let n_filters_splits = nfilters btune_params * 2;
               p1 = cparams\<lparr>
                      compcode := codecs btune_params
                                    (c_div (aux_index btune_params) n_filters_splits),
                      filter' := filters btune_params
                                    (c_div (c_mod (aux_index btune_params) n_filters_splits) 2) \<rparr>;
               p2 = (if bt_splitmode btune_params = BLOSC_AUTO_SPLIT
                     then p1\<lparr> splitmode := c_mod (aux_index btune_params) 2 + 1 \<rparr>
                     else p1\<lparr> splitmode := bt_splitmode btune_params \<rparr>);
               pm = perf_mode (config btune_params);
               p3 = (if (pm = BTUNE_PERF_COMP \<or> pm = BTUNE_PERF_BALANCED) \<and>
                        (compcode p2 = BLOSC_ZSTD \<or> compcode p2 = BLOSC_ZLIB) \<and>
                        nhards btune_params = 0
                     then p2\<lparr> clevel := 3 \<rparr> else p2);
               b = btune_params\<lparr> aux_cparams := p3 \<rparr>
           in if inference_ended b then b\<lparr> aux_index := aux_index b + 1 \<rparr> else b)
      | SHUFFLE_SIZE \<Rightarrow>
          (let b = btune_params\<lparr> aux_index := aux_index btune_params + 1 \<rparr>;
               min_shuffle = (if filter' cparams = 1 then MIN_SHUFFLE else MIN_BITSHUFFLE)
           in if increasing_shuffle cparams then
                (if shufflesize cparams < MAX_SHUFFLE
                 then b\<lparr> aux_cparams := cparams\<lparr> shufflesize := shufflesize cparams * 2 \<rparr> \<rparr>
                 else b)
              else
                (if shufflesize cparams > min_shuffle
                 then b\<lparr> aux_cparams := cparams\<lparr> shufflesize := shufflesize cparams div 2 \<rparr> \<rparr>
                 else b))
      | THREADS \<Rightarrow>
          (let b = btune_params\<lparr> aux_index := aux_index btune_params + 1 \<rparr>;
               nthreads = (if threads_for_comp b
                           then nthreads_comp cparams else nthreads_decomp cparams);
               nthreads' = (if increasing_nthreads cparams
                            then (if nthreads < max_threads b then nthreads + 1 else nthreads)
                            else (if nthreads > MIN_THREADS then nthreads - 1 else nthreads))
           in if threads_for_comp b
              then b\<lparr> aux_cparams := cparams\<lparr> nthreads_comp := nthreads' \<rparr> \<rparr>
              else b\<lparr> aux_cparams := cparams\<lparr> nthreads_decomp := nthreads' \<rparr> \<rparr>)
      | CLEVEL \<Rightarrow>
          (let b1 = btune_params\<lparr> aux_index := aux_index btune_params + 1 \<rparr>;
               b2 = (if \<not> has_ended_clevel b1 then
                       (if increasing_clevel cparams
                        then b1\<lparr> clevel_index := clevel_index b1 + step_size b1 \<rparr>
                        else b1\<lparr> clevel_index := clevel_index b1 - step_size b1 \<rparr>)
                     else b1);
               p1 = cparams\<lparr> clevel := clevels b2 (clevel_index b2) \<rparr>;
               p2 = (if clevel p1 = 9 \<and> compcode p1 = BLOSC_ZSTD then p1\<lparr> clevel := 8 \<rparr> else p1)
           in b2\<lparr> aux_cparams := p2 \<rparr>)
      | MEMCPY \<Rightarrow>
          btune_params\<lparr> aux_index := aux_index btune_params + 1,
                         aux_cparams := cparams\<lparr> clevel := 0 \<rparr> \<rparr>
      | WAITING \<Rightarrow> btune_params\<lparr> nwaitings := nwaitings btune_params + 1 \<rparr>
      | STOP \<Rightarrow> btune_params)"

text \<open>\<^verbatim>\<open>btune_next_cparams\<close>: in the state STOP it returns before touching the context.\<close>

definition btune_next_cparams ::
  "prediction \<Rightarrow> blosc2_context \<Rightarrow> btune_struct \<Rightarrow> blosc2_context \<times> btune_struct" where
  "btune_next_cparams inferred context btune_params =
     (let b1 = apply_inference inferred btune_params;
          b2 = b1\<lparr> aux_cparams := best b1 \<rparr>
      in if state b2 = STOP then (context, b2)
         else (let b3 = tune_step b2;
                   (c1, b4, p) = set_btune_cparams context b3 (aux_cparams b3);
                   b5 = b4\<lparr> aux_cparams := p \<rparr>
               in (if ctx_blocksize c1 > ctx_sourcesize c1
                   then c1\<lparr> ctx_blocksize := ctx_sourcesize c1 \<rparr> else c1, b5)))"

subsection \<open>The state machine\<close>

text \<open>
  \<^verbatim>\<open>process_waiting_state\<close>. The counters are converted to \<^verbatim>\<open>uint32_t\<close> for the
  remainders; \<^verbatim>\<open>(int)(nhards_before_stop - 1)\<close> is the wrapped unsigned difference
  read as a signed value. Two remainders can be taken by zero, which C leaves undefined
  and HOL defines as the dividend: by \<^verbatim>\<open>nhards_before_stop\<close> in the case HARD (only after
  the increment at init has wrapped it to 0), and by \<^verbatim>\<open>nsofts_before_hard\<close> in the second
  test of the case SOFT (a soft readapt is only ever started with
  \<^verbatim>\<open>nsofts_before_hard > 0\<close>).
\<close>

definition minimum_hards :: "btune_struct \<Rightarrow> nat" where
  "minimum_hards btune_params = (if \<not> cparams_hint (config btune_params) then 1 else 0)"

text \<open>The case \<^verbatim>\<open>HARD\<close> of the \<^verbatim>\<open>switch\<close> on \<^verbatim>\<open>readapt_from\<close>.\<close>

definition waiting_after_hard :: "btune_struct \<Rightarrow> btune_struct" where
  "waiting_after_hard btune_params =
     (let bh = behaviour (config btune_params);
          b = btune_params\<lparr> nhards := nhards btune_params + 1 \<rparr>
      in if nhards_before_stop bh = minimum_hards btune_params \<or>
            to_u32 (nhards b) mod nhards_before_stop bh = 0 then
           (if nsofts_before_hard bh > 0 \<and> repeat_mode bh \<noteq> BTUNE_STOP
              then init_soft (b\<lparr> is_repeating := True \<rparr>)
            else if repeat_mode bh \<noteq> BTUNE_REPEAT_ALL
              then b\<lparr> is_repeating := True, state := STOP \<rparr>
            else if nwaits_before_readapt bh > 0
              then b\<lparr> is_repeating := True, state := WAITING, readapt_from := WAIT \<rparr>
            else if nhards_before_stop bh > minimum_hards btune_params
              then init_hard (b\<lparr> is_repeating := True \<rparr>)
            else b\<lparr> is_repeating := True, state := STOP \<rparr>)
         else if nsofts_before_hard bh > 0 then init_soft b
         else if nwaits_before_readapt bh > 0
           then b\<lparr> state := WAITING, readapt_from := WAIT \<rparr>
         else init_hard b)"

text \<open>The case \<^verbatim>\<open>SOFT\<close>.\<close>

definition waiting_after_soft :: "btune_struct \<Rightarrow> btune_struct" where
  "waiting_after_soft btune_params =
     (let bh = behaviour (config btune_params);
          b = btune_params\<lparr> nsofts := nsofts btune_params + 1, readapt_from := WAIT \<rparr>
      in if nwaits_before_readapt bh = 0 then
           (if (nsofts_before_hard bh = 0 \<or>
                to_u32 (nsofts b) mod nsofts_before_hard bh = 0) \<and>
               \<not> (is_repeating b \<and> repeat_mode bh \<noteq> BTUNE_REPEAT_ALL) \<and>
               nhards_before_stop bh > minimum_hards btune_params
            then init_hard b
            else if minimum_hards btune_params = 0 \<and> nhards_before_stop bh = 0 \<and>
                    to_u32 (nsofts b) mod nsofts_before_hard bh = 0 \<and>
                    repeat_mode bh = BTUNE_STOP
              then b\<lparr> is_repeating := True, state := STOP \<rparr>
            else init_soft b)
         else b)"

text \<open>The case \<^verbatim>\<open>WAIT\<close>.\<close>

definition waiting_after_wait :: "btune_struct \<Rightarrow> btune_struct" where
  "waiting_after_wait btune_params =
     (let bh = behaviour (config btune_params)
      in if nwaits_before_readapt bh = 0 \<or>
            (nwaitings btune_params \<noteq> 0 \<and>
             to_u32 (nwaitings btune_params) mod nwaits_before_readapt bh = 0) then
           (if (nsofts_before_hard bh = 0 \<or>
                (nsofts btune_params \<noteq> 0 \<and>
                 to_u32 (nsofts btune_params) mod nsofts_before_hard bh = 0)) \<and>
               \<not> (is_repeating btune_params \<and> repeat_mode bh \<noteq> BTUNE_REPEAT_ALL) \<and>
               nhards_before_stop bh > minimum_hards btune_params
            then init_hard btune_params
            else if nsofts_before_hard bh > 0 \<and>
                    \<not> (is_repeating btune_params \<and> repeat_mode bh = BTUNE_STOP)
              then init_soft btune_params
            else btune_params)
         else btune_params)"

text \<open>The last statement: the soft step size is forced on the last hard.\<close>

definition force_soft_step :: "btune_struct \<Rightarrow> btune_struct" where
  "force_soft_step btune_params =
     (if readapt_from btune_params = HARD \<and>
         nhards btune_params =
           sint (word_of_nat (nhards_before_stop (behaviour (config btune_params))) - 1
                 :: 32 word)
      then btune_params\<lparr> step_size := SOFT_STEP_SIZE \<rparr> else btune_params)"

definition process_waiting_state :: "btune_struct \<Rightarrow> btune_struct" where
  "process_waiting_state btune_params =
     force_soft_step
       (case readapt_from btune_params of
          HARD \<Rightarrow> waiting_after_hard btune_params
        | SOFT \<Rightarrow> waiting_after_soft btune_params
        | WAIT \<Rightarrow> waiting_after_wait btune_params)"

text \<open>Leaving for CLEVEL: the state is set and the level direction is checked.\<close>

definition enter_clevel :: "btune_struct \<Rightarrow> btune_struct" where
  "enter_clevel btune_params =
     (let b = btune_params\<lparr> state := CLEVEL \<rparr>
      in if has_ended_clevel b then flip_clevel b else b)"

text \<open>
  \<^verbatim>\<open>update_aux\<close>: the state transition after a scored step, one definition for each
  case of its \<^verbatim>\<open>switch\<close> on the state.
\<close>

definition leave_codec_filter :: "btune_struct \<Rightarrow> btune_struct" where
  "leave_codec_filter btune_params =
     (let b = btune_params\<lparr> aux_index := 0 \<rparr>;
          shufflesize' = shufflesize (best b);
          s1 = (if BTUNE_ENABLE_SHUFFLESIZE then
                  (let is_power_2 = (shufflesize' AND (shufflesize' - 1) = 0)
                   in b\<lparr> state := (if filter' (best b) \<noteq> 0 \<and> is_power_2
                                    then SHUFFLE_SIZE else THREADS) \<rparr>)
                else b\<lparr> state := (if BTUNE_ENABLE_THREADS then THREADS else CLEVEL) \<rparr>);
          s2 = (if state s1 = THREADS \<and> max_threads s1 = 1 then enter_clevel s1 else s1)
      in if BTUNE_ENABLE_SHUFFLESIZE \<and> state s2 = SHUFFLE_SIZE then
           (if has_ended_shuffle (best s2) then flip_shuffle s2 else s2)
         else if state s2 = THREADS then
           (if has_ended_shuffle (best s2) then flip_nthreads s2 else s2)
         else s2)"

definition aux_codec_filter :: "btune_struct \<Rightarrow> btune_struct" where
  "aux_codec_filter btune_params =
     (let m = ncodecs btune_params * nfilters btune_params;
          aux_index_max = (if bt_splitmode btune_params = BLOSC_AUTO_SPLIT then m * 2 else m)
      in if aux_index btune_params \<ge> aux_index_max
         then leave_codec_filter btune_params else btune_params)"

definition leave_shuffle_size :: "btune_struct \<Rightarrow> btune_struct" where
  "leave_shuffle_size btune_params =
     (let s1 = btune_params\<lparr> aux_index := 0,
                 state := (if BTUNE_ENABLE_THREADS then THREADS else CLEVEL) \<rparr>
      in if state s1 = THREADS \<and> max_threads s1 = 1 then enter_clevel s1
         else if has_ended_threads s1 then flip_nthreads s1 else s1)"

definition aux_shuffle_size :: "btune_struct \<Rightarrow> bool \<Rightarrow> btune_struct" where
  "aux_shuffle_size btune_params improved =
     (let first_time = (aux_index btune_params = 1);
          b = (if \<not> improved \<and> first_time then flip_shuffle btune_params else btune_params)
      in if has_ended_shuffle (best b) \<or> (\<not> improved \<and> \<not> first_time)
         then leave_shuffle_size b else b)"

definition leave_threads :: "btune_struct \<Rightarrow> btune_struct" where
  "leave_threads btune_params =
     (let s1 = (if perf_mode (config btune_params) = BTUNE_PERF_BALANCED then
                  (if aux_index btune_params < MAX_STATE_THREADS then
                     (let s = btune_params\<lparr> threads_for_comp := \<not> threads_for_comp btune_params,
                                             aux_index := MAX_STATE_THREADS \<rparr>
                      in if has_ended_threads s then flip_nthreads s else s)
                   else btune_params)
                else btune_params\<lparr> aux_index := MAX_STATE_THREADS + 1 \<rparr>)
      in if aux_index s1 > MAX_STATE_THREADS
         then enter_clevel (s1\<lparr> aux_index := 0 \<rparr>) else s1)"

definition aux_threads :: "btune_struct \<Rightarrow> bool \<Rightarrow> btune_struct" where
  "aux_threads btune_params improved =
     (let first_time = (c_mod (aux_index btune_params) MAX_STATE_THREADS = 1);
          b = (if \<not> improved \<and> first_time then flip_nthreads btune_params else btune_params)
      in if has_ended_threads b \<or> (\<not> improved \<and> \<not> first_time)
         then leave_threads b else b)"

definition aux_clevel :: "btune_struct \<Rightarrow> bool \<Rightarrow> btune_struct" where
  "aux_clevel btune_params improved =
     (let first_time = (aux_index btune_params = 1);
          b = (if \<not> improved \<and> first_time then flip_clevel btune_params else btune_params)
      in if has_ended_clevel b \<or> (\<not> improved \<and> \<not> first_time)
         then b\<lparr> aux_index := 0,
                 state := (if BTUNE_ENABLE_MEMCPY then MEMCPY else WAITING) \<rparr>
         else b)"

definition aux_switch :: "btune_struct \<Rightarrow> bool \<Rightarrow> btune_struct" where
  "aux_switch btune_params improved =
     (case state btune_params of
        CODEC_FILTER \<Rightarrow> aux_codec_filter btune_params
      | SHUFFLE_SIZE \<Rightarrow> aux_shuffle_size btune_params improved
      | THREADS \<Rightarrow> aux_threads btune_params improved
      | CLEVEL \<Rightarrow> aux_clevel btune_params improved
      | MEMCPY \<Rightarrow> btune_params\<lparr> aux_index := 0, state := WAITING \<rparr>
      | WAITING \<Rightarrow> btune_params
      | STOP \<Rightarrow> btune_params)"

definition update_aux :: "btune_struct \<Rightarrow> bool \<Rightarrow> btune_struct" where
  "update_aux btune_params improved =
     (let b1 = aux_switch btune_params improved
      in if state b1 = WAITING then process_waiting_state b1 else b1)"

text \<open>
  What a scored step reports: whether it improved, and the winner label of the trace
  line (\<open>W\<close> improved, \<open>-\<close> not improved, \<open>S\<close> special chunk).
\<close>

record step_report =
  improved :: bool
  winner :: char

text \<open>
  The verdict of \<^verbatim>\<open>btune_update\<close> on a step: \<open>improved0\<close> is what the oracle said,
  \<open>cbytes\<close> the compressed size and \<open>typesize\<close> the context's \<^verbatim>\<open>typesize\<close>. The
  threshold \<^verbatim>\<open>BLOSC2_MAX_OVERHEAD + (size_t)context->typesize\<close> is a sum of \<^verbatim>\<open>size_t\<close>:
  the conversion of a negative \<^verbatim>\<open>typesize\<close> and the addition both wrap modulo \<open>2^64\<close>
  (\<open>to_size_t\<close> of the converted \<^verbatim>\<open>typesize\<close>, then \<open>to_size_t\<close> of the sum), so that
  the threshold for a \<^verbatim>\<open>typesize\<close> of \<open>-1\<close> is 31.
\<close>

definition verdict :: "bool \<Rightarrow> nat \<Rightarrow> int \<Rightarrow> step_report" where
  "verdict improved0 cbytes typesize =
     (let r0 = \<lparr> improved = improved0, winner = CHR ''-'' \<rparr>;
          r1 = (if cbytes \<le> to_size_t (int BLOSC2_MAX_OVERHEAD + int (to_size_t typesize))
                then \<lparr> improved = False, winner = CHR ''S'' \<rparr> else r0)
      in if improved r1 then r1\<lparr> winner := CHR ''W'' \<rparr> else r1)"

text \<open>
  \<^verbatim>\<open>btune_update\<close>, in the order of the code. \<open>dtime_measured\<close> is the time that the
  decompression takes when the code measures it, \<open>ctime'\<close> the compression time passed
  in. The compressed size is \<^verbatim>\<open>context->destsize\<close>.
\<close>

text \<open>The decompression time: measured under the condition of the code, else 0.\<close>

definition step_dtime :: "real \<Rightarrow> blosc2_context \<Rightarrow> btune_struct \<Rightarrow> real" where
  "step_dtime dtime_measured context btune_params =
     (let bh = behaviour (config btune_params)
      in if \<not> (state btune_params = WAITING \<and>
                (nwaits_before_readapt bh = 0 \<or>
                 to_u32 (nwaitings btune_params) mod nwaits_before_readapt bh \<noteq> 0)) \<and>
            (perf_mode (config btune_params) = BTUNE_PERF_DECOMP \<or>
             perf_mode (config btune_params) = BTUNE_PERF_BALANCED) \<and>
            \<not> ctx_dest_null context
         then dtime_measured else 0)"

text \<open>
  The measurements are stored in the candidate and in the two rolling arrays. The
  compression ratio is a quotient of doubles by \<^verbatim>\<open>cbytes\<close>, and the score one by the
  bandwidth.
\<close>

definition store_measurements ::
  "real \<Rightarrow> real \<Rightarrow> blosc2_context \<Rightarrow> btune_struct \<Rightarrow> btune_struct" where
  "store_measurements ctime' dtime' context btune_params =
     (let cbytes = ctx_destsize context;
          score' = score_function btune_params ctime' cbytes dtime';
          cratio' = real_of_int (ctx_sourcesize context) / real cbytes
      in btune_params\<lparr>
           aux_cparams := (aux_cparams btune_params)
             \<lparr> score := score', cratio := cratio', ctime := ctime', dtime := dtime' \<rparr>,
           current_scores := (current_scores btune_params)(rep_index btune_params := score'),
           current_cratios := (current_cratios btune_params)(rep_index btune_params := cratio'),
           rep_index := rep_index btune_params + 1 \<rparr>)"

text \<open>
  What the oracle says: in the state THREADS only the tuned time counts. The two
  coefficients are quotients of doubles by the ratio of \<open>best\<close> and by the new score.
\<close>

definition step_improved :: "real \<Rightarrow> real \<Rightarrow> btune_struct \<Rightarrow> bool" where
  "step_improved ctime' dtime' btune_params =
     (let score'' = mean (current_scores btune_params) 1;
          cratio'' = mean (current_cratios btune_params) 1;
          cratio_coef = cratio'' / cratio (best btune_params);
          score_coef = score (best btune_params) / score''
      in if state btune_params = THREADS then
           (if threads_for_comp btune_params then ctime' < ctime (best btune_params)
            else dtime' < dtime (best btune_params))
         else has_improved btune_params score_coef cratio_coef)"

text \<open>An improved candidate becomes the best; then the state machine moves.\<close>

definition accept_step :: "bool \<Rightarrow> btune_struct \<Rightarrow> btune_struct" where
  "accept_step improved' btune_params =
     (let b3 = (if improved' then btune_params\<lparr> best := aux_cparams btune_params \<rparr>
                else btune_params)
      in update_aux (b3\<lparr> rep_index := 0 \<rparr>) improved')"

text \<open>In the state STOP nothing is scored and nothing reported.\<close>

definition btune_update ::
  "real \<Rightarrow> real \<Rightarrow> blosc2_context \<Rightarrow> btune_struct \<Rightarrow> btune_struct \<times> step_report option"
  where
  "btune_update dtime_measured ctime' context btune_params =
     (if state btune_params = STOP then (btune_params, None)
      else
        (let b1 = btune_params\<lparr> steps_count := steps_count btune_params + 1 \<rparr>;
             dtime' = step_dtime dtime_measured context b1;
             b2 = store_measurements ctime' dtime' context b1
         in if rep_index b2 = 1 then
              (let r = verdict (step_improved ctime' dtime' b2) (ctx_destsize context)
                         (ctx_typesize context)
               in (accept_step (improved r) b2, Some r))
            else (b2, None)))"

subsection \<open>Sequences of calls\<close>

text \<open>
  The pipeline calls the tuner once per chunk: \<^verbatim>\<open>next_cparams\<close>, then compression,
  then \<^verbatim>\<open>update\<close>. A call carries what comes from outside the tuner: the prediction
  for \<^verbatim>\<open>next_cparams\<close>; for \<^verbatim>\<open>update\<close> the source size, the compressed size and
  whether a destination buffer exists (the fields that the compression sets in the
  context), and the two times.
\<close>

datatype tuner_call =
    Next_cparams prediction
  | Update int nat bool real real

fun call :: "tuner_call \<Rightarrow> blosc2_context \<times> btune_struct \<Rightarrow> blosc2_context \<times> btune_struct"
  where
  "call (Next_cparams inferred) (context, btune_params) =
     btune_next_cparams inferred context btune_params"
| "call (Update sourcesize destsize dest_null dtime_measured ctime') (context, btune_params) =
     (let c = context\<lparr> ctx_sourcesize := sourcesize, ctx_destsize := destsize,
                       ctx_dest_null := dest_null \<rparr>
      in (c, fst (btune_update dtime_measured ctime' c btune_params)))"

definition run ::
  "tuner_call list \<Rightarrow> blosc2_context \<times> btune_struct \<Rightarrow> blosc2_context \<times> btune_struct" where
  "run calls w = fold call calls w"

subsection \<open>The entropy probe\<close>

text \<open>
  \<^verbatim>\<open>entropy_probe.c\<close>. The input is read through a pointer, so the model has the memory
  around it: a function from the offset relative to \<^verbatim>\<open>ibase\<close> to the byte there.
  Positions (\<^verbatim>\<open>ip\<close>, \<^verbatim>\<open>anchor\<close>, \<^verbatim>\<open>ref\<close>, the bounds) are offsets of this kind. The hash
  table, an array indexed by a 14-bit hash, is a function of the hash value.
\<close>

type_synonym memory = "int \<Rightarrow> 8 word"

definition MAX_COPY :: "8 word" where "MAX_COPY = 32"
definition MAX_DISTANCE :: "32 word" where "MAX_DISTANCE = 8191"
definition MAX_FARDISTANCE :: "32 word" where "MAX_FARDISTANCE = 65535 + 8191 - 1"
definition HASH_LOG :: nat where "HASH_LOG = 14"

text \<open>\<^verbatim>\<open>BLOSCLZ_READU32\<close>: an unaligned 32-bit load, on a little-endian machine.\<close>

definition READU32 :: "memory \<Rightarrow> int \<Rightarrow> 32 word" where
  "READU32 m p =
     ucast (m p) OR push_bit 8 (ucast (m (p + 1))) OR push_bit 16 (ucast (m (p + 2))) OR
     push_bit 24 (ucast (m (p + 3)))"

definition HASH_FUNCTION :: "32 word \<Rightarrow> 32 word" where
  "HASH_FUNCTION seq = drop_bit (32 - HASH_LOG) (seq * 2654435761)"

text \<open>The eight bytes of a 64-bit load at \<open>p\<close>.\<close>

definition bytes8 :: "memory \<Rightarrow> int \<Rightarrow> 8 word list" where
  "bytes8 m p = map (\<lambda>k. m (p + int k)) [0..<8]"

text \<open>
  \<^verbatim>\<open>get_run\<close>. The first loop compares eight bytes at \<^verbatim>\<open>ref\<close> with the broadcast byte
  \<open>x\<close>; when they differ, the inner loop \<^verbatim>\<open>while (*ref++ == x) ip++\<close> stops inside
  these eight bytes, after as many steps as they start with bytes equal to \<open>x\<close>. The
  last loop looks into the remainder.
\<close>

function get_run_tail :: "memory \<Rightarrow> 8 word \<Rightarrow> int \<Rightarrow> int \<Rightarrow> int \<Rightarrow> int" where
  "get_run_tail m x ip_bound ip ref =
     (if ip < ip_bound \<and> m ref = x then get_run_tail m x ip_bound (ip + 1) (ref + 1) else ip)"
  by pat_completeness auto
termination
  by (relation "measure (\<lambda>(m, x, ip_bound, ip, ref). nat (ip_bound - ip))") auto

function get_run_loop :: "memory \<Rightarrow> 8 word \<Rightarrow> int \<Rightarrow> int \<Rightarrow> int \<Rightarrow> int" where
  "get_run_loop m x ip_bound ip ref =
     (if ip < ip_bound - 8 then
        (if bytes8 m ref \<noteq> replicate 8 x
         then ip + int (length (takeWhile (\<lambda>b. b = x) (bytes8 m ref)))
         else get_run_loop m x ip_bound (ip + 8) (ref + 8))
      else get_run_tail m x ip_bound ip ref)"
  by pat_completeness auto
termination
  by (relation "measure (\<lambda>(m, x, ip_bound, ip, ref). nat (ip_bound - ip))") auto

definition get_run :: "memory \<Rightarrow> int \<Rightarrow> int \<Rightarrow> int \<Rightarrow> int" where
  "get_run m ip ip_bound ref = get_run_loop m (m (ip - 1)) ip_bound ip ref"

text \<open>
  \<^verbatim>\<open>get_match\<close>. The inner loop \<^verbatim>\<open>while (*ref++ == *ip++) {}\<close> increments \<^verbatim>\<open>ip\<close> also
  at the byte that differs, so the result is one past the first difference; the same
  holds in the remainder loop.
\<close>

function get_match_tail :: "memory \<Rightarrow> int \<Rightarrow> int \<Rightarrow> int \<Rightarrow> int" where
  "get_match_tail m ip_bound ip ref =
     (if ip < ip_bound then
        (if m ref = m ip then get_match_tail m ip_bound (ip + 1) (ref + 1) else ip + 1)
      else ip)"
  by pat_completeness auto
termination
  by (relation "measure (\<lambda>(m, ip_bound, ip, ref). nat (ip_bound - ip))") auto

function get_match_loop :: "memory \<Rightarrow> int \<Rightarrow> int \<Rightarrow> int \<Rightarrow> int" where
  "get_match_loop m ip_bound ip ref =
     (if ip < ip_bound - 8 then
        (if bytes8 m ref \<noteq> bytes8 m ip
         then ip + int (length (takeWhile (\<lambda>(a, b). a = b)
                                  (zip (bytes8 m ref) (bytes8 m ip)))) + 1
         else get_match_loop m ip_bound (ip + 8) (ref + 8))
      else get_match_tail m ip_bound ip ref)"
  by pat_completeness auto
termination
  by (relation "measure (\<lambda>(m, ip_bound, ip, ref). nat (ip_bound - ip))") auto

definition get_match :: "memory \<Rightarrow> int \<Rightarrow> int \<Rightarrow> int \<Rightarrow> int" where
  "get_match m ip ip_bound ref = get_match_loop m ip_bound ip ref"

definition get_run_or_match :: "memory \<Rightarrow> int \<Rightarrow> int \<Rightarrow> int \<Rightarrow> bool \<Rightarrow> int" where
  "get_run_or_match m ip ip_bound ref run' =
     (if run' then get_run m ip ip_bound ref else get_match m ip ip_bound ref)"

declare get_run_tail.simps [simp del] get_run_loop.simps [simp del]
  get_match_tail.simps [simp del] get_match_loop.simps [simp del]

text \<open>The variables of the main loop of \<^verbatim>\<open>get_cratio\<close> that live across iterations.\<close>

record probe_state =
  ip :: int
  oc :: int
  copy :: "8 word"
  htab :: "32 word \<Rightarrow> 32 word"

text \<open>The macro \<^verbatim>\<open>LITERAL2\<close>, followed by \<^verbatim>\<open>continue\<close>.\<close>

definition LITERAL2 :: "int \<Rightarrow> probe_state \<Rightarrow> probe_state" where
  "LITERAL2 anchor s =
     (if copy s + 1 = MAX_COPY
      then s\<lparr> ip := anchor + 1, oc := oc s + 2, copy := 0 \<rparr>
      else s\<lparr> ip := anchor + 1, oc := oc s + 1, copy := copy s + 1 \<rparr>)"

text \<open>The bytes that a match token costs; \<open>distance\<close> is the biased distance.\<close>

definition encode_match :: "int \<Rightarrow> 32 word \<Rightarrow> int" where
  "encode_match len distance =
     (if len \<ge> 7 then c_div (len - 7) 255 + 1 else 0) +
     (if distance < MAX_DISTANCE then 2 else 4)"

text \<open>
  The end of the loop body, for a match of length \<open>len\<close> that ends at \<open>ip2\<close>: the output
  counter is adjusted, the hash table is updated at the match boundary, and the scan
  goes on two bytes later.
\<close>

definition emit_match :: "memory \<Rightarrow> int \<Rightarrow> int \<Rightarrow> 32 word \<Rightarrow> probe_state \<Rightarrow> probe_state" where
  "emit_match m ip2 len distance s1 =
     (let oc1 = (if copy s1 = 0 then oc s1 - 1 else oc s1);
          hval2 = HASH_FUNCTION (READU32 m ip2)
      in s1\<lparr> htab := (htab s1)(hval2 := word_of_int ip2),
             ip := ip2 + 2,
             oc := oc1 + encode_match len distance + 1,
             copy := 0 \<rparr>)"

text \<open>
  The loop body from \<^verbatim>\<open>ip = anchor + 4\<close> on, once the first four bytes match:
  \<open>distance\<close> is the distance before it is biased.
\<close>

definition try_match ::
  "memory \<Rightarrow> int \<Rightarrow> int \<Rightarrow> int \<Rightarrow> int \<Rightarrow> int \<Rightarrow> 32 word \<Rightarrow> probe_state \<Rightarrow> probe_state" where
  "try_match m minlen ipshift ip_bound anchor ref distance s1 =
     (let ip1 = get_run_or_match m (anchor + 4) ip_bound (ref + 4) (distance - 1 = 0);
          ip2 = ip1 - ipshift;
          len = ip2 - anchor
      in if len < minlen then LITERAL2 anchor s1
         else emit_match m ip2 len (distance - 1) s1)"

text \<open>One iteration of the main loop.\<close>

definition probe_step :: "memory \<Rightarrow> int \<Rightarrow> int \<Rightarrow> int \<Rightarrow> probe_state \<Rightarrow> probe_state" where
  "probe_step m minlen ipshift ip_bound s =
     (let anchor = ip s;
          hval = HASH_FUNCTION (READU32 m anchor);
          ref = uint (htab s hval);
          distance = (word_of_int (anchor - ref) :: 32 word);
          s1 = s\<lparr> htab := (htab s)(hval := word_of_int anchor) \<rparr>
      in if distance = 0 \<or> distance \<ge> MAX_FARDISTANCE then LITERAL2 anchor s1
         else if READU32 m ref \<noteq> READU32 m anchor then LITERAL2 anchor s1
         else try_match m minlen ipshift ip_bound anchor ref distance s1)"

text \<open>
  The main loop \<^verbatim>\<open>while (ip < ip_limit)\<close>, with \<^verbatim>\<open>ip_limit = ibase + limit - 12\<close> and
  \<^verbatim>\<open>ip_bound = ibase + limit - 1\<close>. For arbitrary \<open>minlen\<close> and \<open>ipshift\<close> the position
  need not advance, so the loop is a partial function: \<open>None\<close> when it does not return.
\<close>

partial_function (option) probe_loop ::
  "memory \<Rightarrow> int \<Rightarrow> int \<Rightarrow> int \<Rightarrow> probe_state \<Rightarrow> probe_state option" where
  "probe_loop m minlen ipshift limit s =
     (if ip s < limit - 12
      then probe_loop m minlen ipshift limit (probe_step m minlen ipshift (limit - 1) s)
      else Some s)"

declare probe_loop.simps [code]

text \<open>
  \<^verbatim>\<open>uint16_t limit = (maxlen > hashlen) ? hashlen : maxlen\<close>, with
  \<^verbatim>\<open>hashlen = 1 << HASH_LOG\<close>; the conversion to \<^verbatim>\<open>uint16_t\<close> wraps.
\<close>

definition probe_limit :: "int \<Rightarrow> int" where
  "probe_limit maxlen = (if maxlen > 2 ^ HASH_LOG then 2 ^ HASH_LOG else maxlen mod 2 ^ 16)"

text \<open>
  The state before the loop: the hash table is set to zero by \<^verbatim>\<open>memset\<close>, and the scan
  starts with a literal copy (\<^verbatim>\<open>copy = 4\<close>, \<^verbatim>\<open>oc = 5\<close>).
\<close>

definition probe_start :: probe_state where
  "probe_start = \<lparr> ip = 0, oc = 5, copy = 4, htab = (\<lambda>_. 0) \<rparr>"

text \<open>The state in which the main loop of \<^verbatim>\<open>get_cratio\<close> ends.\<close>

definition probe_scan :: "memory \<Rightarrow> int \<Rightarrow> int \<Rightarrow> int \<Rightarrow> probe_state option" where
  "probe_scan m maxlen minlen ipshift =
     probe_loop m minlen ipshift (probe_limit maxlen) probe_start"

text \<open>
  \<^verbatim>\<open>get_cratio\<close>: \<^verbatim>\<open>ic = (float)(ip - ibase)\<close> over \<^verbatim>\<open>(float)oc\<close>.
\<close>

definition get_cratio :: "memory \<Rightarrow> int \<Rightarrow> int \<Rightarrow> int \<Rightarrow> real option" where
  "get_cratio m maxlen minlen ipshift =
     map_option (\<lambda>s. real_of_int (ip s) / real_of_int (oc s)) (probe_scan m maxlen minlen ipshift)"

text \<open>
  The conversion \<^verbatim>\<open>(int)\<close> of a floating-point value truncates towards zero. C leaves
  it undefined when the truncated value is not an \<^verbatim>\<open>int\<close> (as for the infinity that a
  division by a zero ratio gives); \<open>undefined_result\<close> is what the platform returns
  then.
\<close>

definition float_to_int :: "int \<Rightarrow> real \<Rightarrow> int" where
  "float_to_int undefined_result v =
     (if - (2 ^ 31) - 1 < v \<and> v < 2 ^ 31 then (if v \<ge> 0 then \<lfloor>v\<rfloor> else \<lceil>v\<rceil>)
      else undefined_result)"

text \<open>
  The registered \<^verbatim>\<open>encoder\<close>: the output buffer, \<^verbatim>\<open>meta\<close>, \<^verbatim>\<open>cparams\<close> and \<^verbatim>\<open>chunk\<close>
  are not used.
\<close>

definition encoder :: "int \<Rightarrow> memory \<Rightarrow> int \<Rightarrow> int option" where
  "encoder undefined_result input input_len =
     (case get_cratio input input_len 3 3 of
        None \<Rightarrow> None
      | Some cratio' \<Rightarrow>
          (let cbytes = (if cratio' = 0 then undefined_result
                         else float_to_int undefined_result (real_of_int input_len / cratio'))
           in Some (if cbytes > input_len then input_len else cbytes)))"

subsection \<open>Auxiliary definitions for the statements\<close>

definition with_perf_mode :: "btune_performance_mode \<Rightarrow> btune_struct \<Rightarrow> btune_struct" where
  "with_perf_mode pm b = b\<lparr> config := (config b)\<lparr> perf_mode := pm \<rparr> \<rparr>"

definition with_tradeoff :: "real \<Rightarrow> btune_struct \<Rightarrow> btune_struct" where
  "with_tradeoff t b = b\<lparr> config := (config b)\<lparr> tradeoff := t \<rparr> \<rparr>"

text \<open>The configuration that \<^verbatim>\<open>btune_init\<close> is given, NULL standing for the defaults.\<close>

definition given_config :: "btune_config \<Rightarrow> btune_config option \<Rightarrow> btune_config" where
  "given_config defaults tuner_params =
     (case tuner_params of None \<Rightarrow> defaults | Some c \<Rightarrow> c)"

text \<open>
  The codec list that \<^verbatim>\<open>btune_init_codecs\<close> builds, as a function of the compressor
  list, the trade-off and the performance mode.
\<close>

definition codecs_by_band :: "string \<Rightarrow> real \<Rightarrow> btune_performance_mode \<Rightarrow> int list" where
  "codecs_by_band all_codecs t pm =
     (if 666666 / 1000000 \<le> t then
        (if strstr_found all_codecs ''zstd'' then [BLOSC_ZSTD] else []) @
        (if strstr_found all_codecs ''zlib'' then [BLOSC_ZLIB] else [])
      else
        [BLOSC_LZ4] @ (if 333333 / 1000000 \<le> t then [BLOSC_BLOSCLZ] else []) @
        (if pm = BTUNE_PERF_DECOMP then [BLOSC_LZ4HC] else []))"

text \<open>
  A tuple with its three moving direction flags cleared: two tuples with the same image
  differ at most in these flags.
\<close>

definition without_flags :: "cparams_btune \<Rightarrow> cparams_btune" where
  "without_flags p = p\<lparr> increasing_clevel := False, increasing_shuffle := False,
                        increasing_nthreads := False \<rparr>"

text \<open>
  A transition that changes \<open>best\<close> at most in its direction flags and leaves the
  candidate, the thread bound and the repetition index alone.
\<close>

definition flags_only :: "btune_struct \<Rightarrow> btune_struct \<Rightarrow> bool" where
  "flags_only b b' \<longleftrightarrow>
     without_flags (best b') = without_flags (best b) \<and> aux_cparams b' = aux_cparams b \<and>
     max_threads b' = max_threads b \<and> rep_index b' = rep_index b"

text \<open>Both thread counts of a tuple lie between \<open>MIN_THREADS\<close> and the bound \<open>m\<close>.\<close>

definition in_range :: "cparams_btune \<Rightarrow> int \<Rightarrow> bool" where
  "in_range p m \<longleftrightarrow>
     MIN_THREADS \<le> nthreads_comp p \<and> nthreads_comp p \<le> m \<and>
     MIN_THREADS \<le> nthreads_decomp p \<and> nthreads_decomp p \<le> m"

definition threads_ok :: "btune_struct \<Rightarrow> bool" where
  "threads_ok b \<longleftrightarrow>
     in_range (best b) (max_threads b) \<and> in_range (aux_cparams b) (max_threads b)"

text \<open>The thread counts that a hinted init reads back from the contexts.\<close>

definition thread_sources_ok :: "blosc2_context \<Rightarrow> btune_struct \<Rightarrow> bool" where
  "thread_sources_ok cctx b \<longleftrightarrow>
     MIN_THREADS \<le> ctx_nthreads cctx \<and> ctx_nthreads cctx \<le> max_threads b \<and>
     (case dctx b of
        None \<Rightarrow> MIN_THREADS \<le> bt_nthreads_decomp b \<and> bt_nthreads_decomp b \<le> max_threads b
      | Some d \<Rightarrow> MIN_THREADS \<le> d_nthreads d \<and> d_nthreads d \<le> max_threads b)"

text \<open>
  Inference is over: \<^verbatim>\<open>btune_next_cparams\<close> calls neither \<^verbatim>\<open>btune_model_inference\<close>
  nor \<^verbatim>\<open>most_predicted\<close> any more.
\<close>

definition inference_over :: "btune_struct \<Rightarrow> bool" where
  "inference_over b \<longleftrightarrow> inference_count b = 0 \<and> inference_ended b"

text \<open>A call that delivers no prediction.\<close>

fun no_prediction :: "tuner_call \<Rightarrow> bool" where
  "no_prediction (Next_cparams inferred) = (inferred = None)"
| "no_prediction (Update sourcesize destsize dest_null dtime_measured ctime') = True"

text \<open>The compression parameters that the tuner writes into the context.\<close>

definition context_cparams ::
  "blosc2_context \<Rightarrow> int \<times> int list \<times> int list \<times> int \<times> int \<times> int \<times> int \<times> int" where
  "context_cparams c = (ctx_compcode c, ctx_filters c, ctx_filters_meta c, ctx_splitmode c,
     ctx_clevel c, ctx_blocksize c, ctx_typesize c, ctx_new_nthreads c)"

text \<open>Two memories that hold the same bytes at the offsets from 0 up to \<open>n\<close>.\<close>

definition same_bytes :: "int \<Rightarrow> memory \<Rightarrow> memory \<Rightarrow> bool" where
  "same_bytes n m1 m2 \<longleftrightarrow> (\<forall>p. 0 \<le> p \<and> p < n \<longrightarrow> m1 p = m2 p)"

text \<open>Every entry of the hash table is zero or a position before \<open>b\<close>.\<close>

definition htab_below :: "int \<Rightarrow> (32 word \<Rightarrow> 32 word) \<Rightarrow> bool" where
  "htab_below b t \<longleftrightarrow> (\<forall>h. t h = 0 \<or> uint (t h) < b)"

definition probe_inv :: "probe_state \<Rightarrow> bool" where
  "probe_inv s \<longleftrightarrow> 0 \<le> ip s \<and> htab_below (ip s) (htab s)"

text \<open>Two scan states with the same position, output counter and literal counter.\<close>

definition agree :: "probe_state \<Rightarrow> probe_state \<Rightarrow> bool" where
  "agree s t \<longleftrightarrow> ip s = ip t \<and> oc s = oc t \<and> copy s = copy t"

subsection \<open>Concrete inputs\<close>

definition example_config :: btune_config where
  "example_config = \<lparr> bandwidth = 4, perf_mode = BTUNE_PERF_COMP, tradeoff = 1 / 2,
     behaviour = \<lparr> nwaits_before_readapt = 0, nsofts_before_hard = 5,
                   nhards_before_stop = 1, repeat_mode = BTUNE_STOP \<rparr>,
     cparams_hint = False, use_inference = 0 \<rparr>"

definition example_context :: blosc2_context where
  "example_context = \<lparr> ctx_compcode = 0, ctx_filters = replicate 6 0,
     ctx_filters_meta = replicate 6 0, ctx_splitmode = 1, ctx_clevel = 5, ctx_blocksize = 0,
     ctx_typesize = 4, ctx_nthreads = 4, ctx_new_nthreads = 4, ctx_sourcesize = 4096,
     ctx_destsize = 0, ctx_dest_null = False, schunk_typesize = 4, schunk_nchunks = 0 \<rparr>"

definition example_env :: btune_env where
  "example_env = \<lparr> env_perf_mode = None, env_tradeoff = None \<rparr>"

definition example_compressors :: string where
  "example_compressors = ''blosclz,lz4,lz4hc,zlib,zstd''"

definition zstd_level5 :: cparams_btune where
  "zstd_level5 = cparams_btune_default\<lparr> compcode := BLOSC_ZSTD, clevel := 5 \<rparr>"

text \<open>
  A start with \<^verbatim>\<open>cparams_hint\<close>: init goes straight to a soft readapt (state CLEVEL);
  \<open>hinted_proposed\<close> is the state after the first \<^verbatim>\<open>next_cparams\<close>, and
  \<open>special_context\<close> the context after a compression to 20 bytes.
\<close>

definition hint_config :: btune_config where
  "hint_config = \<lparr> bandwidth = 4, perf_mode = BTUNE_PERF_COMP, tradeoff = 1 / 2,
     behaviour = \<lparr> nwaits_before_readapt = 0, nsofts_before_hard = 5,
                   nhards_before_stop = 2, repeat_mode = BTUNE_STOP \<rparr>,
     cparams_hint = True, use_inference = 0 \<rparr>"

definition hinted_start :: btune_struct where
  "hinted_start = btune_init hint_config example_env example_compressors 0 (Some hint_config)
     example_context None"

definition hinted_proposed :: "blosc2_context \<times> btune_struct" where
  "hinted_proposed = call (Next_cparams None) (example_context, hinted_start)"

definition special_context :: blosc2_context where
  "special_context = (fst hinted_proposed)\<lparr> ctx_destsize := 20 \<rparr>"

text \<open>
  A start that is stopped at once (hint, no hards, no softs, repeat mode STOP) while
  inference is enabled for three chunks.
\<close>

definition stopped_config :: btune_config where
  "stopped_config = \<lparr> bandwidth = 4, perf_mode = BTUNE_PERF_COMP, tradeoff = 1 / 2,
     behaviour = \<lparr> nwaits_before_readapt = 0, nsofts_before_hard = 0,
                   nhards_before_stop = 0, repeat_mode = BTUNE_STOP \<rparr>,
     cparams_hint = True, use_inference = 3 \<rparr>"

definition stopped_start :: btune_struct where
  "stopped_start = btune_init stopped_config example_env example_compressors 3
     (Some stopped_config) example_context None"


text \<open>
  A buffer in memory, with zero bytes around it; sixteen zero bytes; and the same
  sixteen bytes followed by other bytes.
\<close>

definition buffer :: "8 word list \<Rightarrow> memory" where
  "buffer xs = (\<lambda>p. if 0 \<le> p \<and> p < int (length xs) then xs ! nat p else 0)"

definition zeros16 :: memory where
  "zeros16 = buffer (replicate 16 0)"

definition zeros16_then_ones :: memory where
  "zeros16_then_ones = buffer (replicate 16 0 @ replicate 16 255)"

section \<open>Properties\<close>

subsection \<open>The score\<close>

text \<open>
  Claim C6. At a positive bandwidth, with \<open>reduced = cbytes / 1024\<close>, the score is
  \<open>ctime + reduced / bandwidth\<close> in the mode COMP, \<open>reduced / bandwidth + dtime\<close> in
  the mode DECOMP and \<open>ctime + reduced / bandwidth + dtime\<close> in the mode BALANCED, for
  every \<open>(ctime, cbytes, dtime)\<close>. (At a bandwidth of 0 the quotient of the code is
  not a real number.)
\<close>

theorem score_function_by_mode:
  assumes "0 < bandwidth (config b)"
  shows "score_function (with_perf_mode BTUNE_PERF_COMP b) ct cbytes dt =
           ct + (real cbytes / 1024) / real (bandwidth (config b)) \<and>
         score_function (with_perf_mode BTUNE_PERF_DECOMP b) ct cbytes dt =
           (real cbytes / 1024) / real (bandwidth (config b)) + dt \<and>
         score_function (with_perf_mode BTUNE_PERF_BALANCED b) ct cbytes dt =
           ct + (real cbytes / 1024) / real (bandwidth (config b)) + dt"
  by (simp add: score_function_def with_perf_mode_def BTUNE_KB_def)

theorem score_function_by_mode_witness:
  "0 < bandwidth (config (btune_calloc example_config)) \<and>
   score_function (with_perf_mode BTUNE_PERF_COMP (btune_calloc example_config))
     (1 / 2) 2048 3 = 1 \<and>
   score_function (with_perf_mode BTUNE_PERF_DECOMP (btune_calloc example_config))
     (1 / 2) 2048 3 = 7 / 2 \<and>
   score_function (with_perf_mode BTUNE_PERF_BALANCED (btune_calloc example_config))
     (1 / 2) 2048 3 = 4"
proof -
  have h: "0 < bandwidth (config (btune_calloc example_config))"
    by (simp add: btune_calloc_def example_config_def)
  from score_function_by_mode [OF h, of "1 / 2" 2048 3] h show ?thesis
    by (simp add: btune_calloc_def example_config_def)
qed

subsection \<open>The improvement oracle\<close>

text \<open>
  What the code does in the bands above zero: both integer quotients \<^verbatim>\<open>1/3\<close> and
  \<^verbatim>\<open>2/3\<close> are 0, so every trade-off in \<open>(0, 1]\<close> takes the last branch.
\<close>

lemma has_improved_above_zero:
  "0 < t \<Longrightarrow> t \<le> 1 \<Longrightarrow> has_improved (with_tradeoff t b) s cr = (cr > 1)"
  by (simp add: has_improved_def with_tradeoff_def)

text \<open>
  Claim C1 says that in the BALANCED band \<open>1/3 < tradeoff \<le> 2/3\<close> the predicate is
  the three-clause rule of the specification. The code does not do that: at the
  trade-off \<open>1/2\<close>, with \<open>score_coef = 1/2\<close> and \<open>cratio_coef = 17/16\<close>, the code
  answers true and the rule answers false.
\<close>

theorem has_improved_balanced_diverges:
  "has_improved (with_tradeoff (1 / 2) (btune_calloc example_config)) (1 / 2) (17 / 16) \<and>
   \<not> spec_balanced_rule (1 / 2) (17 / 16)"
  by (simp add: has_improved_def with_tradeoff_def spec_balanced_rule_def)

theorem has_improved_balanced_diverges_witness:
  "has_improved (with_tradeoff (1 / 2) (btune_calloc example_config)) (1 / 2) (17 / 16) \<noteq>
   spec_balanced_rule (1 / 2) (17 / 16)"
  using has_improved_balanced_diverges by simp

subsection \<open>The level caps of set\_btune\_cparams\<close>

text \<open>
  What the code does for every trade-off that is not negative: the first chained test
  is false and the second true, so the only cap is the one at 6.
\<close>

lemma set_btune_cparams_clevel:
  "0 \<le> tradeoff (config b) \<Longrightarrow>
   clevel (snd (snd (set_btune_cparams c b p))) = (if clevel p \<ge> 6 then 6 else clevel p)"
  by (simp add: set_btune_cparams_def Let_def split: option.splits)

text \<open>
  Claim C2 says that in the BALANCED band a ZSTD or ZLIB tuple with level at least 3
  is capped to level 3. The code does not do that: at the trade-off \<open>1/2\<close> a ZSTD
  tuple of level 5 keeps level 5.
\<close>

theorem set_btune_cparams_balanced_no_cap:
  "compcode zstd_level5 = BLOSC_ZSTD \<and> clevel zstd_level5 = 5 \<and>
   clevel (snd (snd (set_btune_cparams example_context
     (with_tradeoff (1 / 2) (btune_calloc example_config)) zstd_level5))) = 5"
  by (simp add: set_btune_cparams_def Let_def with_tradeoff_def zstd_level5_def
      btune_calloc_def)

theorem set_btune_cparams_balanced_no_cap_witness:
  "clevel (snd (snd (set_btune_cparams example_context
     (with_tradeoff (1 / 2) (btune_calloc example_config)) zstd_level5))) \<noteq> 3"
  using set_btune_cparams_balanced_no_cap by simp

subsection \<open>The admissible codecs after initialisation\<close>

lemma clevels_step_shape:
  "\<exists>cl ci. clevels_step mn st x b = b\<lparr> clevels := cl, clevel_index := ci \<rparr>"
proof (cases "mn + x = st")
  case True
  then have "clevels_step mn st x b =
      b\<lparr> clevels := (clevels b)(x := mn + x), clevel_index := x \<rparr>"
    by (simp add: clevels_step_def)
  then show ?thesis by blast
next
  case False
  then have "clevels_step mn st x b =
      b\<lparr> clevels := (clevels b)(x := mn + x), clevel_index := clevel_index b \<rparr>"
    by (simp add: clevels_step_def)
  then show ?thesis by blast
qed

lemma fold_clevels_step:
  "\<exists>cl ci. fold (clevels_step mn st) xs b = b\<lparr> clevels := cl, clevel_index := ci \<rparr>"
proof (induction xs arbitrary: b)
  case Nil
  have "fold (clevels_step mn st) [] b =
      b\<lparr> clevels := clevels b, clevel_index := clevel_index b \<rparr>"
    by simp
  then show ?case by blast
next
  case (Cons x xs)
  obtain c1 i1 where s: "clevels_step mn st x b = b\<lparr> clevels := c1, clevel_index := i1 \<rparr>"
    using clevels_step_shape by blast
  obtain cl ci where "fold (clevels_step mn st) xs (b\<lparr> clevels := c1, clevel_index := i1 \<rparr>) =
     (b\<lparr> clevels := c1, clevel_index := i1 \<rparr>)\<lparr> clevels := cl, clevel_index := ci \<rparr>"
    using Cons.IH by blast
  then have "fold (clevels_step mn st) (x # xs) b = b\<lparr> clevels := cl, clevel_index := ci \<rparr>"
    by (simp add: s)
  then show ?case by blast
qed

lemma btune_init_clevels_unalloc:
  "\<exists>cl ci. btune_init_clevels False b mn mx st =
     b\<lparr> nclevels := mx - mn + 1, clevels := cl, clevel_index := ci \<rparr>"
proof -
  obtain cl ci where
    "fold (clevels_step mn st) [0..mx - mn + 1 - 1] (b\<lparr> nclevels := mx - mn + 1 \<rparr>)
     = (b\<lparr> nclevels := mx - mn + 1 \<rparr>)\<lparr> clevels := cl, clevel_index := ci \<rparr>"
    using fold_clevels_step by blast
  then show ?thesis by (auto simp: btune_init_clevels_def Let_def)
qed

lemma codecs_add_filter [simp]:
  "codecs (add_filter b f) = codecs b" "ncodecs (add_filter b f) = ncodecs b"
  by (simp_all add: add_filter_def)

lemma codecs_init_hard [simp]:
  "codecs (init_hard b) = codecs b" "ncodecs (init_hard b) = ncodecs b"
  by (simp_all add: init_hard_def flip_shuffle_def Let_def)

lemma entries_simps [simp]:
  "entries a 0 = []" "entries a 1 = [a 0]" "entries a 2 = [a 0, a 1]"
  "entries a 3 = [a 0, a 1, a 2]"
  by (simp_all add: entries_def upto.simps)

lemma admissible_init_codecs:
  "ncodecs b = 0 \<Longrightarrow>
   admissible_codecs (btune_init_codecs all_codecs b) =
     codecs_by_band all_codecs (tradeoff (config b)) (perf_mode (config b))"
  by (simp add: admissible_codecs_def btune_init_codecs_def codecs_by_band_def add_codec_def
      Let_def blosc_ids)

lemma codecs_init_tables:
  "codecs (init_tables defaults env all_codecs config0 dctx') =
     codecs (btune_init_codecs all_codecs
       ((btune_calloc config0)
          \<lparr> config := config0\<lparr> perf_mode := resolve_perf_mode env (perf_mode config0),
                               tradeoff := resolve_tradeoff defaults env (tradeoff config0) \<rparr>,
            dctx := dctx' \<rparr>))"
    (is "?c = codecs (btune_init_codecs all_codecs ?b1)")
  and ncodecs_init_tables:
  "ncodecs (init_tables defaults env all_codecs config0 dctx') =
     ncodecs (btune_init_codecs all_codecs
       ((btune_calloc config0)
          \<lparr> config := config0\<lparr> perf_mode := resolve_perf_mode env (perf_mode config0),
                               tradeoff := resolve_tradeoff defaults env (tradeoff config0) \<rparr>,
            dctx := dctx' \<rparr>))"
proof -
  define b3 where "b3 = add_filter (add_filter (add_filter (btune_init_codecs all_codecs ?b1)
      BLOSC_NOFILTER) BLOSC_SHUFFLE) BLOSC_BITSHUFFLE"
  obtain cl ci where b4:
    "btune_init_clevels False (b3\<lparr> bt_splitmode := BLOSC_AUTO_SPLIT \<rparr>) 1 9 9 =
     (b3\<lparr> bt_splitmode := BLOSC_AUTO_SPLIT \<rparr>)
       \<lparr> nclevels := 9 - 1 + 1, clevels := cl, clevel_index := ci \<rparr>"
    using btune_init_clevels_unalloc by blast
  have c3: "codecs b3 = codecs (btune_init_codecs all_codecs ?b1)"
    "ncodecs b3 = ncodecs (btune_init_codecs all_codecs ?b1)"
    by (simp_all add: b3_def)
  show "?c = codecs (btune_init_codecs all_codecs ?b1)"
    unfolding init_tables_def Let_def b3_def [symmetric] b4 by (simp add: c3)
  show "ncodecs (init_tables defaults env all_codecs config0 dctx') =
      ncodecs (btune_init_codecs all_codecs ?b1)"
    unfolding init_tables_def Let_def b3_def [symmetric] b4 by (simp add: c3)
qed

lemma admissible_codecs_init:
  assumes "\<not> cparams_hint (given_config defaults tuner_params)"
  shows "admissible_codecs (btune_init defaults env all_codecs icount tuner_params cctx dctx') =
         admissible_codecs (btune_init_codecs all_codecs
           ((btune_calloc (given_config defaults tuner_params))
              \<lparr> config := (given_config defaults tuner_params)
                   \<lparr> perf_mode := resolve_perf_mode env
                       (perf_mode (given_config defaults tuner_params)),
                     tradeoff := resolve_tradeoff defaults env
                       (tradeoff (given_config defaults tuner_params)) \<rparr>,
                 dctx := dctx' \<rparr>))"
proof -
  have g: "(case tuner_params of None \<Rightarrow> defaults | Some c \<Rightarrow> c) =
      given_config defaults tuner_params"
    by (simp add: given_config_def)
  show ?thesis
    using assms
    unfolding btune_init_def Let_def g admissible_codecs_def
    by (simp add: init_readapt_def init_tuples_def Let_def codecs_init_tables
        ncodecs_init_tables split: option.splits)
qed

text \<open>
  Claim C3, as amended. After \<^verbatim>\<open>btune_init\<close> without \<^verbatim>\<open>cparams_hint\<close> (whatever the
  inference count), the admissible codecs are: for a trade-off of at least 0.666666,
  ZSTD and ZLIB, each when the compressor list names it; otherwise LZ4, then BLOSCLZ
  when the trade-off is at least 0.333333, then LZ4HC when the performance mode is
  DECOMP. The trade-off and the mode are the ones that init resolves from the
  environment.
\<close>

theorem init_codecs_by_band:
  assumes "\<not> cparams_hint (given_config defaults tuner_params)"
  shows "admissible_codecs (btune_init defaults env all_codecs icount tuner_params cctx dctx') =
         codecs_by_band all_codecs
           (resolve_tradeoff defaults env (tradeoff (given_config defaults tuner_params)))
           (resolve_perf_mode env (perf_mode (given_config defaults tuner_params)))"
  unfolding admissible_codecs_init [OF assms]
  by (subst admissible_init_codecs) (simp_all add: btune_calloc_def)

theorem init_codecs_by_band_witness:
  "\<not> cparams_hint (given_config example_config (Some example_config)) \<and>
   admissible_codecs (btune_init example_config example_env example_compressors 0
      (Some example_config) example_context None) = [BLOSC_LZ4, BLOSC_BLOSCLZ]"
  using init_codecs_by_band [where tuner_params = "Some example_config"
      and defaults = example_config and env = example_env
      and all_codecs = example_compressors and icount = 0 and cctx = example_context
      and dctx' = None]
  by (simp add: example_config_def example_env_def example_compressors_def given_config_def
      codecs_by_band_def resolve_tradeoff_def resolve_perf_mode_def)

text \<open>
  Claim C3 as stated fails: in the BALANCED band with the performance mode DECOMP the
  list holds LZ4HC beside LZ4 and BLOSCLZ.
\<close>

theorem init_codecs_balanced_decomp_counterexample:
  "(1 / 3 < tradeoff (example_config\<lparr> perf_mode := BTUNE_PERF_DECOMP \<rparr>) \<and>
    tradeoff (example_config\<lparr> perf_mode := BTUNE_PERF_DECOMP \<rparr>) \<le> 2 / 3) \<and>
   admissible_codecs (btune_init example_config example_env example_compressors 0
      (Some (example_config\<lparr> perf_mode := BTUNE_PERF_DECOMP \<rparr>)) example_context None)
     = [BLOSC_LZ4, BLOSC_BLOSCLZ, BLOSC_LZ4HC] \<and>
   BLOSC_LZ4HC \<notin> {BLOSC_LZ4, BLOSC_BLOSCLZ}"
proof -
  have h: "\<not> cparams_hint (given_config example_config
      (Some (example_config\<lparr> perf_mode := BTUNE_PERF_DECOMP \<rparr>)))"
    by (simp add: given_config_def example_config_def)
  show ?thesis
    unfolding admissible_codecs_init [OF h]
    by (subst admissible_init_codecs)
       (simp_all add: btune_calloc_def example_config_def example_env_def
          example_compressors_def given_config_def codecs_by_band_def resolve_tradeoff_def
          resolve_perf_mode_def blosc_ids)
qed

subsection \<open>Transitions that move only the direction flags\<close>

lemma flags_only_refl [simp]: "flags_only b b"
  by (simp add: flags_only_def)

lemma flags_only_updates [simp]:
  "flags_only b (x\<lparr> state := s \<rparr>) = flags_only b x"
  "flags_only b (x\<lparr> readapt_from := r \<rparr>) = flags_only b x"
  "flags_only b (x\<lparr> step_size := n \<rparr>) = flags_only b x"
  "flags_only b (x\<lparr> nhards := n \<rparr>) = flags_only b x"
  "flags_only b (x\<lparr> nsofts := n \<rparr>) = flags_only b x"
  "flags_only b (x\<lparr> is_repeating := r' \<rparr>) = flags_only b x"
  "flags_only b (x\<lparr> aux_index := n \<rparr>) = flags_only b x"
  "flags_only b (x\<lparr> threads_for_comp := t \<rparr>) = flags_only b x"
  by (simp_all add: flags_only_def)

lemma flags_only_flip [simp]:
  "flags_only b (flip_clevel x) = flags_only b x"
  "flags_only b (flip_shuffle x) = flags_only b x"
  "flags_only b (flip_nthreads x) = flags_only b x"
  by (simp_all add: flags_only_def flip_clevel_def flip_shuffle_def flip_nthreads_def
      without_flags_def)

lemma flags_only_init_soft [simp]: "flags_only b (init_soft x) = flags_only b x"
  by (simp add: init_soft_def Let_def)

lemma flags_only_init_hard [simp]: "flags_only b (init_hard x) = flags_only b x"
  by (simp add: init_hard_def Let_def)

lemma flags_only_enter_clevel [simp]: "flags_only b (enter_clevel x) = flags_only b x"
  by (simp add: enter_clevel_def Let_def)

lemma flags_only_waiting [simp]:
  "flags_only b (waiting_after_hard x) = flags_only b x"
  "flags_only b (waiting_after_soft x) = flags_only b x"
  "flags_only b (waiting_after_wait x) = flags_only b x"
  "flags_only b (force_soft_step x) = flags_only b x"
  by (simp_all add: waiting_after_hard_def waiting_after_soft_def waiting_after_wait_def
      force_soft_step_def Let_def)

lemma flags_only_process_waiting_state [simp]:
  "flags_only b (process_waiting_state x) = flags_only b x"
  by (simp add: process_waiting_state_def split: readapt_type.splits)

lemma flags_only_leave [simp]:
  "flags_only b (leave_codec_filter x) = flags_only b x"
  "flags_only b (leave_shuffle_size x) = flags_only b x"
  "flags_only b (leave_threads x) = flags_only b x"
  by (simp_all add: leave_codec_filter_def leave_shuffle_size_def leave_threads_def Let_def
      btune_consts)

lemma flags_only_aux [simp]:
  "flags_only b (aux_codec_filter x) = flags_only b x"
  "flags_only b (aux_shuffle_size x i) = flags_only b x"
  "flags_only b (aux_threads x i) = flags_only b x"
  "flags_only b (aux_clevel x i) = flags_only b x"
  by (simp_all add: aux_codec_filter_def aux_shuffle_size_def aux_threads_def aux_clevel_def
      Let_def)

lemma flags_only_aux_switch [simp]:
  "flags_only b (aux_switch x i) = flags_only b x"
  by (simp add: aux_switch_def split: btune_state.splits)

lemma flags_only_update_aux [simp]:
  "flags_only b (update_aux x i) = flags_only b x"
  by (simp add: update_aux_def Let_def)

lemma update_aux_frame [simp]:
  "without_flags (best (update_aux x i)) = without_flags (best x)"
  "aux_cparams (update_aux x i) = aux_cparams x"
  "max_threads (update_aux x i) = max_threads x"
  "rep_index (update_aux x i) = rep_index x"
  using flags_only_update_aux [of x x i] by (simp_all add: flags_only_def)

lemma verdict_typesize_wraps:
  "verdict True 1000 (- 1) = \<lparr> improved = True, winner = CHR ''W'' \<rparr>"
  "verdict True 31 (- 1) = \<lparr> improved = False, winner = CHR ''S'' \<rparr>"
  by (simp_all add: verdict_def to_size_t_def BLOSC2_MAX_OVERHEAD_def)

lemma verdict_special:
  "cbytes \<le> to_size_t (int BLOSC2_MAX_OVERHEAD + int (to_size_t typesize)) \<Longrightarrow>
   verdict i cbytes typesize = \<lparr> improved = False, winner = CHR ''S'' \<rparr>"
  by (simp add: verdict_def)

subsection \<open>Special chunks\<close>

text \<open>
  Claim C5, as amended. For every call to \<^verbatim>\<open>update\<close> in a state other than STOP (with
  the repetition index at 0, as it is between calls) in which the compressed size is
  at most the header overhead plus the type size, the sum taken in \<^verbatim>\<open>size_t\<close> (modulo
  \<open>2^64\<close>) as the code takes it, the step is reported as not improved with the winner
  label \<open>S\<close>, and \<open>best\<close> is not replaced: it changes at most in its direction flags.
\<close>

theorem special_chunk_not_best:
  assumes "state b \<noteq> STOP" and "rep_index b = 0"
    and "ctx_destsize c \<le> to_size_t (int BLOSC2_MAX_OVERHEAD + int (to_size_t (ctx_typesize c)))"
  shows "snd (btune_update dm ct c b) = Some \<lparr> improved = False, winner = CHR ''S'' \<rparr> \<and>
         without_flags (best (fst (btune_update dm ct c b))) = without_flags (best b)"
  using assms
  by (simp add: btune_update_def Let_def verdict_special accept_step_def
      store_measurements_def)

theorem special_chunk_not_best_witness:
  "state (snd hinted_proposed) \<noteq> STOP \<and> rep_index (snd hinted_proposed) = 0 \<and>
   ctx_destsize special_context \<le>
     to_size_t (int BLOSC2_MAX_OVERHEAD + int (to_size_t (ctx_typesize special_context))) \<and>
   snd (btune_update 0 (1 / 1000) special_context (snd hinted_proposed)) =
     Some \<lparr> improved = False, winner = CHR ''S'' \<rparr> \<and>
   without_flags (best (fst (btune_update 0 (1 / 1000) special_context (snd hinted_proposed))))
     = without_flags (best (snd hinted_proposed))"
proof -
  have h: "state (snd hinted_proposed) \<noteq> STOP" "rep_index (snd hinted_proposed) = 0"
    by code_simp+
  have "ctx_destsize special_context = 20" "ctx_typesize special_context = 4"
    by code_simp+
  then have s: "ctx_destsize special_context \<le>
      to_size_t (int BLOSC2_MAX_OVERHEAD + int (to_size_t (ctx_typesize special_context)))"
    by (simp add: BLOSC2_MAX_OVERHEAD_def to_size_t_def)
  from special_chunk_not_best [OF h s, of 0 "1 / 1000"] h s show ?thesis by simp
qed

text \<open>
  Claim C5 as stated fails where it says that \<open>best\<close> is left unchanged: after a hinted
  start, the first step of the state CLEVEL on a special chunk (20 bytes at a type
  size of 4) flips the level direction of \<open>best\<close>.
\<close>

theorem special_chunk_flips_direction:
  "state (snd hinted_proposed) \<noteq> STOP \<and>
   ctx_destsize special_context \<le>
     to_size_t (int BLOSC2_MAX_OVERHEAD + int (to_size_t (ctx_typesize special_context))) \<and>
   increasing_clevel
     (best (fst (btune_update 0 (1 / 1000) special_context (snd hinted_proposed))))
     \<noteq> increasing_clevel (best (snd hinted_proposed))"
proof -
  have "ctx_destsize special_context = 20" "ctx_typesize special_context = 4"
    by code_simp+
  then have s: "ctx_destsize special_context \<le>
      to_size_t (int BLOSC2_MAX_OVERHEAD + int (to_size_t (ctx_typesize special_context)))"
    by (simp add: BLOSC2_MAX_OVERHEAD_def to_size_t_def)
  have "state (snd hinted_proposed) \<noteq> STOP"
    by code_simp
  moreover have "increasing_clevel
      (best (fst (btune_update 0 (1 / 1000) special_context (snd hinted_proposed))))
      \<noteq> increasing_clevel (best (snd hinted_proposed))"
    by code_simp
  ultimately show ?thesis using s by simp
qed

subsection \<open>The state STOP\<close>

lemma btune_init_clevels_shape:
  "\<exists>cl ci. btune_init_clevels a b mn mx st =
     b\<lparr> best := (if a then (best b)\<lparr> clevel := st \<rparr> else best b),
        aux_cparams := (if a then (aux_cparams b)\<lparr> clevel := st \<rparr> else aux_cparams b),
        nclevels := mx - mn + 1, clevels := cl, clevel_index := ci \<rparr>"
proof -
  define b1 where "b1 = (if a
      then b\<lparr> best := (best b)\<lparr> clevel := st \<rparr>, aux_cparams := (aux_cparams b)\<lparr> clevel := st \<rparr> \<rparr>
      else b)"
  obtain cl ci where
    "fold (clevels_step mn st) [0..mx - mn + 1 - 1] (b1\<lparr> nclevels := mx - mn + 1 \<rparr>)
     = (b1\<lparr> nclevels := mx - mn + 1 \<rparr>)\<lparr> clevels := cl, clevel_index := ci \<rparr>"
    using fold_clevels_step by blast
  then have "btune_init_clevels a b mn mx st =
     b\<lparr> best := (if a then (best b)\<lparr> clevel := st \<rparr> else best b),
        aux_cparams := (if a then (aux_cparams b)\<lparr> clevel := st \<rparr> else aux_cparams b),
        nclevels := mx - mn + 1, clevels := cl, clevel_index := ci \<rparr>"
    by (simp add: btune_init_clevels_def Let_def b1_def)
  then show ?thesis by blast
qed

lemma btune_init_clevels_fields [simp]:
  "state (btune_init_clevels a b mn mx st) = state b"
  "max_threads (btune_init_clevels a b mn mx st) = max_threads b"
  "rep_index (btune_init_clevels a b mn mx st) = rep_index b"
  "best (btune_init_clevels a b mn mx st) = (if a then (best b)\<lparr> clevel := st \<rparr> else best b)"
  "aux_cparams (btune_init_clevels a b mn mx st) =
     (if a then (aux_cparams b)\<lparr> clevel := st \<rparr> else aux_cparams b)"
proof -
  obtain cl ci where e: "btune_init_clevels a b mn mx st =
     b\<lparr> best := (if a then (best b)\<lparr> clevel := st \<rparr> else best b),
        aux_cparams := (if a then (aux_cparams b)\<lparr> clevel := st \<rparr> else aux_cparams b),
        nclevels := mx - mn + 1, clevels := cl, clevel_index := ci \<rparr>"
    using btune_init_clevels_shape by blast
  show "state (btune_init_clevels a b mn mx st) = state b"
    "max_threads (btune_init_clevels a b mn mx st) = max_threads b"
    "rep_index (btune_init_clevels a b mn mx st) = rep_index b"
    "best (btune_init_clevels a b mn mx st) = (if a then (best b)\<lparr> clevel := st \<rparr> else best b)"
    "aux_cparams (btune_init_clevels a b mn mx st) =
       (if a then (aux_cparams b)\<lparr> clevel := st \<rparr> else aux_cparams b)"
    by (simp_all add: e)
qed

lemma apply_inference_frame [simp]:
  "state (apply_inference pr b) = state b"
  "max_threads (apply_inference pr b) = max_threads b"
  "rep_index (apply_inference pr b) = rep_index b"
  by (simp_all add: apply_inference_def Let_def split: option.splits prod.splits)

lemma apply_inference_threads [simp]:
  "nthreads_comp (best (apply_inference pr b)) = nthreads_comp (best b)"
  "nthreads_decomp (best (apply_inference pr b)) = nthreads_decomp (best b)"
  by (simp_all add: apply_inference_def Let_def split: option.splits prod.splits)

lemma apply_inference_none: "best (apply_inference None b) = best b"
  by (simp add: apply_inference_def Let_def)

lemma apply_inference_over: "inference_over b \<Longrightarrow> apply_inference pr b = b"
  by (simp add: apply_inference_def inference_over_def Let_def)

lemma next_cparams_stop:
  "state b = STOP \<Longrightarrow>
   btune_next_cparams pr c b =
     (c, (apply_inference pr b)\<lparr> aux_cparams := best (apply_inference pr b) \<rparr>)"
  by (simp add: btune_next_cparams_def Let_def)

lemma update_stop: "state b = STOP \<Longrightarrow> btune_update dm ct c b = (b, None)"
  by (simp add: btune_update_def)

lemma call_stop:
  assumes "state (snd w) = STOP"
  shows "state (snd (call k w)) = STOP"
    and "context_cparams (fst (call k w)) = context_cparams (fst w)"
    and "no_prediction k \<or> inference_over (snd w) \<Longrightarrow> best (snd (call k w)) = best (snd w)"
    and "inference_over (snd w) \<Longrightarrow> inference_over (snd (call k w))"
proof -
  obtain c b where w: "w = (c, b)" by (cases w)
  with assms have s: "state b = STOP" by simp
  show "state (snd (call k w)) = STOP"
    by (cases k) (simp_all add: w s next_cparams_stop update_stop)
  show "context_cparams (fst (call k w)) = context_cparams (fst w)"
    by (cases k) (simp_all add: w s next_cparams_stop update_stop context_cparams_def)
  show "best (snd (call k w)) = best (snd w)" if "no_prediction k \<or> inference_over (snd w)"
    using that
    by (cases k) (auto simp: w s next_cparams_stop update_stop apply_inference_none
        apply_inference_over)
  show "inference_over (snd (call k w))" if "inference_over (snd w)"
    using that
    by (cases k) (auto simp: w s next_cparams_stop update_stop apply_inference_over
        inference_over_def)
qed

text \<open>
  Claim C4, as amended. Once the state is STOP, every sequence of calls to
  \<^verbatim>\<open>next_cparams\<close> and \<^verbatim>\<open>update\<close> leaves the state STOP and the compression
  parameters of the context as they are; \<open>best\<close> is left as it is provided that no call
  delivers a prediction, or that inference is over.
\<close>

theorem stop_is_terminal:
  assumes "state b = STOP"
  shows "state (snd (run calls (c, b))) = STOP \<and>
         context_cparams (fst (run calls (c, b))) = context_cparams c \<and>
         (list_all no_prediction calls \<or> inference_over b \<longrightarrow>
            best (snd (run calls (c, b))) = best b)"
proof -
  have "state (snd w) = STOP \<Longrightarrow>
        state (snd (fold call calls w)) = STOP \<and>
        context_cparams (fst (fold call calls w)) = context_cparams (fst w) \<and>
        (list_all no_prediction calls \<or> inference_over (snd w) \<longrightarrow>
           best (snd (fold call calls w)) = best (snd w))" for w
  proof (induction calls arbitrary: w)
    case Nil
    then show ?case by simp
  next
    case (Cons k ks)
    note st = call_stop [OF Cons.prems, of k]
    from Cons.IH [OF st(1)] show ?case
      using st(2,3,4) by auto
  qed
  from this [of "(c, b)"] assms show ?thesis by (simp add: run_def)
qed

theorem stop_is_terminal_witness:
  "state stopped_start = STOP \<and>
   state (snd (run [Next_cparams None, Update 4096 1000 False 0 (1 / 100), Next_cparams None]
     (example_context, stopped_start))) = STOP \<and>
   best (snd (run [Next_cparams None, Update 4096 1000 False 0 (1 / 100), Next_cparams None]
     (example_context, stopped_start))) = best stopped_start"
proof -
  have h: "state stopped_start = STOP" by code_simp
  from stop_is_terminal [OF h,
      of "[Next_cparams None, Update 4096 1000 False 0 (1 / 100), Next_cparams None]"
         example_context] h
  show ?thesis by simp
qed

text \<open>
  Claim C4 as stated fails where it says that \<open>best\<close> is not modified: in the state STOP
  a prediction of the inference front-end still sets the level of \<open>best\<close>.
\<close>

theorem stop_prediction_changes_best:
  "state stopped_start = STOP \<and> clevel (best stopped_start) = 5 \<and>
   clevel (best (snd (btune_next_cparams
     (Some (BLOSC_ZSTD, BLOSC_SHUFFLE, 7, BLOSC_ALWAYS_SPLIT)) example_context stopped_start)))
     = 7"
  by code_simp

subsection \<open>The thread counts\<close>

lemma in_range_without_flags: "in_range (without_flags p) m = in_range p m"
  by (simp add: in_range_def without_flags_def)

lemma in_range_clevel [simp]: "in_range (p\<lparr> clevel := k \<rparr>) m = in_range p m"
  by (simp add: in_range_def)

lemma in_range_measurements [simp]:
  "in_range (p\<lparr> score := s, cratio := r, ctime := t, dtime := d \<rparr>) m = in_range p m"
  by (simp add: in_range_def)

lemma in_range_update_aux [simp]:
  "in_range (best (update_aux x i)) m = in_range (best x) m"
  by (metis in_range_without_flags update_aux_frame(1))

lemma tune_step_frame [simp]:
  "best (tune_step b) = best b" "max_threads (tune_step b) = max_threads b"
  "rep_index (tune_step b) = rep_index b"
  by (simp_all add: tune_step_def Let_def split: btune_state.splits)

lemma tune_step_in_range:
  "in_range (aux_cparams b) (max_threads b) \<Longrightarrow>
   in_range (aux_cparams (tune_step b)) (max_threads b)"
  by (auto simp: tune_step_def Let_def in_range_def MIN_THREADS_def split: btune_state.splits)

lemma set_btune_cparams_frame [simp]:
  "best (fst (snd (set_btune_cparams c b p))) = best b"
  "max_threads (fst (snd (set_btune_cparams c b p))) = max_threads b"
  "rep_index (fst (snd (set_btune_cparams c b p))) = rep_index b"
  "state (fst (snd (set_btune_cparams c b p))) = state b"
  "in_range (snd (snd (set_btune_cparams c b p))) m = in_range p m"
  by (simp_all add: set_btune_cparams_def Let_def in_range_def split: option.splits)

lemma next_cparams_snd:
  "snd (btune_next_cparams pr c b) =
     (let b2 = (apply_inference pr b)\<lparr> aux_cparams := best (apply_inference pr b) \<rparr>;
          b3 = tune_step b2;
          r = set_btune_cparams c b3 (aux_cparams b3)
      in if state b = STOP then b2 else (fst (snd r))\<lparr> aux_cparams := snd (snd r) \<rparr>)"
  by (simp add: btune_next_cparams_def Let_def case_prod_beta)

lemma next_cparams_frame [simp]:
  "max_threads (snd (btune_next_cparams pr c b)) = max_threads b"
  "rep_index (snd (btune_next_cparams pr c b)) = rep_index b"
  by (simp_all add: next_cparams_snd Let_def)

lemma threads_ok_next_cparams:
  assumes "threads_ok b"
  shows "threads_ok (snd (btune_next_cparams pr c b))"
proof -
  define b2 where "b2 = (apply_inference pr b)\<lparr> aux_cparams := best (apply_inference pr b) \<rparr>"
  have m2: "max_threads b2 = max_threads b" by (simp add: b2_def)
  have r2: "in_range (best b2) (max_threads b)" "in_range (aux_cparams b2) (max_threads b)"
    using assms by (simp_all add: b2_def threads_ok_def in_range_def)
  have r3: "in_range (aux_cparams (tune_step b2)) (max_threads b)"
    using tune_step_in_range [of b2] r2 m2 by simp
  show ?thesis
    using r2 r3 m2
    by (simp add: next_cparams_snd Let_def b2_def [symmetric] threads_ok_def)
qed

lemma store_measurements_frame [simp]:
  "best (store_measurements ct dt c b) = best b"
  "max_threads (store_measurements ct dt c b) = max_threads b"
  "in_range (aux_cparams (store_measurements ct dt c b)) m = in_range (aux_cparams b) m"
  "rep_index (store_measurements ct dt c b) = rep_index b + 1"
  "state (store_measurements ct dt c b) = state b"
  by (simp_all add: store_measurements_def Let_def)

lemma accept_step_frame [simp]:
  "max_threads (accept_step i b) = max_threads b"
  "rep_index (accept_step i b) = 0"
  "aux_cparams (accept_step i b) = aux_cparams b"
  "in_range (best (accept_step i b)) m =
     in_range (if i then aux_cparams b else best b) m"
  by (simp_all add: accept_step_def Let_def)

lemma threads_ok_update:
  assumes "threads_ok b"
  shows "threads_ok (fst (btune_update dm ct c b))"
  using assms by (simp add: btune_update_def Let_def threads_ok_def)

lemma rep_index_update:
  "rep_index b = 0 \<Longrightarrow> rep_index (fst (btune_update dm ct c b)) = 0"
  by (simp add: btune_update_def Let_def)

lemma call_invariant:
  assumes "threads_ok (snd w)"
  shows "threads_ok (snd (call k w))" and "max_threads (snd (call k w)) = max_threads (snd w)"
proof -
  obtain c b where w: "w = (c, b)" by (cases w)
  show "threads_ok (snd (call k w))"
    using assms by (cases k) (simp_all add: w Let_def threads_ok_next_cparams threads_ok_update)
  show "max_threads (snd (call k w)) = max_threads (snd w)"
    by (cases k) (simp_all add: w btune_update_def Let_def)
qed

lemma run_invariant:
  "threads_ok (snd w) \<Longrightarrow>
   threads_ok (snd (run calls w)) \<and> max_threads (snd (run calls w)) = max_threads (snd w)"
  unfolding run_def
proof (induction calls arbitrary: w)
  case Nil
  then show ?case by simp
next
  case (Cons k ks)
  from Cons.IH [OF call_invariant(1) [OF Cons.prems]] call_invariant(2) [OF Cons.prems, of k]
  show ?case by simp
qed

lemma flags_only_threads_ok: "flags_only b b' \<Longrightarrow> threads_ok b \<Longrightarrow> threads_ok b'"
  by (metis flags_only_def in_range_without_flags threads_ok_def)

lemma flags_only_add_codec [simp]: "flags_only b (add_codec x k) = flags_only b x"
  by (simp add: add_codec_def flags_only_def)

lemma flags_only_init_without_hards [simp]:
  "flags_only b (init_without_hards x) = flags_only b x"
  by (simp add: init_without_hards_def Let_def split: btune_repeat_mode.splits)

lemma dctx_frame [simp]:
  "dctx (add_codec b k) = dctx b" "dctx (add_filter b f) = dctx b"
  by (simp_all add: add_codec_def add_filter_def)

lemma dctx_init_codecs [simp]: "dctx (btune_init_codecs ac b) = dctx b"
  by (simp add: btune_init_codecs_def Let_def)

lemma init_tables_frame:
  "dctx (init_tables defaults env ac cfg dctx') = dctx'"
  "rep_index (init_tables defaults env ac cfg dctx') = 0"
proof -
  define b3 where "b3 = add_filter (add_filter (add_filter (btune_init_codecs ac
      ((btune_calloc cfg)
          \<lparr> config := cfg\<lparr> perf_mode := resolve_perf_mode env (perf_mode cfg),
                           tradeoff := resolve_tradeoff defaults env (tradeoff cfg) \<rparr>,
            dctx := dctx' \<rparr>))
      BLOSC_NOFILTER) BLOSC_SHUFFLE) BLOSC_BITSHUFFLE"
  obtain cl ci where b4:
    "btune_init_clevels False (b3\<lparr> bt_splitmode := BLOSC_AUTO_SPLIT \<rparr>) 1 9 9 =
     (b3\<lparr> bt_splitmode := BLOSC_AUTO_SPLIT \<rparr>)
       \<lparr> nclevels := 9 - 1 + 1, clevels := cl, clevel_index := ci \<rparr>"
    using btune_init_clevels_unalloc by blast
  have d3: "dctx b3 = dctx'" by (simp add: b3_def)
  show "dctx (init_tables defaults env ac cfg dctx') = dctx'"
    unfolding init_tables_def Let_def b3_def [symmetric] b4 by (simp add: d3)
  show "rep_index (init_tables defaults env ac cfg dctx') = 0"
    unfolding init_tables_def Let_def b3_def [symmetric] b4 by simp
qed

lemma init_tuples_threads:
  assumes "1 \<le> ctx_nthreads cctx"
    and "case dctx' of None \<Rightarrow> True | Some d \<Rightarrow> 1 \<le> d_nthreads d"
    and "dctx b = dctx'"
  shows "threads_ok (init_tuples cctx dctx' b)"
    and "thread_sources_ok cctx (init_tuples cctx dctx' b)"
    and "rep_index (init_tuples cctx dctx' b) = rep_index b"
  using assms
  by (auto simp: init_tuples_def Let_def threads_ok_def in_range_def thread_sources_ok_def
      MIN_THREADS_def cparams_btune_default_def split: option.splits)

lemma init_with_hint_threads:
  assumes "thread_sources_ok cctx b"
  shows "threads_ok (init_with_hint cctx b)"
    and "rep_index (init_with_hint cctx b) = rep_index b"
proof -
  define b2 where "b2 = b\<lparr> best := extract_btune_cparams cctx b (best b),
      aux_cparams := extract_btune_cparams cctx (b\<lparr> best := extract_btune_cparams cctx b (best b) \<rparr>)
        (aux_cparams b) \<rparr>"
  have ok2: "threads_ok b2"
    using assms
    by (auto simp: b2_def threads_ok_def in_range_def thread_sources_ok_def
        extract_btune_cparams_def split: option.splits)
  have f: "flags_only b2 (init_with_hint cctx b)"
    by (simp add: init_with_hint_def Let_def b2_def)
  show "threads_ok (init_with_hint cctx b)"
    using flags_only_threads_ok [OF f ok2] .
  show "rep_index (init_with_hint cctx b) = rep_index b"
    using f by (simp add: flags_only_def b2_def)
qed

lemma init_readapt_threads:
  assumes "threads_ok b" and "thread_sources_ok cctx b"
  shows "threads_ok (init_readapt hint cctx b)"
    and "rep_index (init_readapt hint cctx b) = rep_index b"
proof -
  have h: "flags_only b (init_hard b)" by simp
  have 1: "threads_ok (init_hard b)" "rep_index (init_hard b) = rep_index b"
    using flags_only_threads_ok [OF h assms(1)] h by (simp_all add: flags_only_def)
  note 2 = init_with_hint_threads [OF assms(2)]
  show "threads_ok (init_readapt hint cctx b)"
    using 1 2 by (simp add: init_readapt_def Let_def threads_ok_def)
  show "rep_index (init_readapt hint cctx b) = rep_index b"
    using 1 2 by (simp add: init_readapt_def Let_def)
qed

lemma btune_init_threads:
  assumes "1 \<le> ctx_nthreads cctx"
    and "case dctx' of None \<Rightarrow> True | Some d \<Rightarrow> 1 \<le> d_nthreads d"
  shows "threads_ok (btune_init defaults env ac icount tuner_params cctx dctx')"
    and "rep_index (btune_init defaults env ac icount tuner_params cctx dctx') = 0"
proof -
  define cfg where "cfg = (case tuner_params of None \<Rightarrow> defaults | Some c \<Rightarrow> c)"
  define b5 where "b5 = init_tables defaults env ac cfg dctx'"
  note t = init_tuples_threads [OF assms init_tables_frame(1) [of defaults env ac cfg dctx']]
  note r = init_readapt_threads [OF t(1,2), of "cparams_hint cfg"]
  show "threads_ok (btune_init defaults env ac icount tuner_params cctx dctx')"
    using r(1) by (simp add: btune_init_def Let_def cfg_def threads_ok_def)
  show "rep_index (btune_init defaults env ac icount tuner_params cctx dctx') = 0"
    using r(2) t(3) init_tables_frame(2) [of defaults env ac cfg dctx']
    by (simp add: btune_init_def Let_def cfg_def)
qed

text \<open>The repetition index is 0 between the calls.\<close>

lemma rep_index_init_with_hint: "rep_index (init_with_hint cctx b) = rep_index b"
proof -
  define b2 where "b2 = b\<lparr> best := extract_btune_cparams cctx b (best b),
      aux_cparams := extract_btune_cparams cctx
        (b\<lparr> best := extract_btune_cparams cctx b (best b) \<rparr>) (aux_cparams b) \<rparr>"
  have "flags_only b2 (init_with_hint cctx b)"
    by (simp add: init_with_hint_def Let_def b2_def)
  then show ?thesis by (simp add: flags_only_def b2_def)
qed

lemma rep_index_init: "rep_index (btune_init defaults env ac icount tuner_params cctx dctx') = 0"
proof -
  have h: "flags_only b (init_hard b)" for b by simp
  have r: "rep_index (init_readapt hint cctx b) = rep_index b" for hint b
    using h [of b] rep_index_init_with_hint [of cctx b]
    by (simp add: init_readapt_def Let_def flags_only_def)
  have t: "rep_index (init_tuples cctx dctx' b) = rep_index b" for b
    by (simp add: init_tuples_def Let_def split: option.splits)
  show ?thesis
    by (simp add: btune_init_def Let_def r t init_tables_frame(2))
qed

lemma rep_index_call: "rep_index (snd w) = 0 \<Longrightarrow> rep_index (snd (call k w)) = 0"
  by (cases w, cases k) (simp_all add: Let_def rep_index_update)

lemma rep_index_run:
  "rep_index (snd (run calls
     (cctx, btune_init defaults env ac icount tuner_params cctx dctx'))) = 0"
proof -
  have "rep_index (snd w) = 0 \<Longrightarrow> rep_index (snd (fold call calls w)) = 0" for w
    by (induction calls arbitrary: w) (simp_all add: rep_index_call)
  then show ?thesis by (simp add: run_def rep_index_init)
qed

text \<open>
  Claim C7. After an init whose compression and decompression thread counts are at
  least 1 (they are at most \<open>max_threads\<close>, which init sets to their maximum), every
  sequence of calls to \<^verbatim>\<open>next_cparams\<close> and \<^verbatim>\<open>update\<close> leaves both thread counts of
  \<open>best\<close> between 1 and \<open>max_threads\<close>, and \<open>max_threads\<close> as init set it.
\<close>

theorem threads_stay_in_range:
  assumes "1 \<le> ctx_nthreads cctx"
    and "case dctx' of None \<Rightarrow> True | Some d \<Rightarrow> 1 \<le> d_nthreads d"
  shows "let b0 = btune_init defaults env ac icount tuner_params cctx dctx';
             b = snd (run calls (cctx, b0))
         in 1 \<le> nthreads_comp (best b) \<and> nthreads_comp (best b) \<le> max_threads b \<and>
            1 \<le> nthreads_decomp (best b) \<and> nthreads_decomp (best b) \<le> max_threads b \<and>
            max_threads b = max_threads b0"
proof -
  let ?b0 = "btune_init defaults env ac icount tuner_params cctx dctx'"
  have ok: "threads_ok ?b0" by (rule btune_init_threads(1) [OF assms])
  from run_invariant [of "(cctx, ?b0)" calls] ok
  have a: "threads_ok (snd (run calls (cctx, ?b0)))"
    and m: "max_threads (snd (run calls (cctx, ?b0))) = max_threads ?b0"
    by simp_all
  from a m show ?thesis
    by (simp add: threads_ok_def in_range_def MIN_THREADS_def Let_def)
qed

theorem threads_stay_in_range_witness:
  "1 \<le> ctx_nthreads example_context \<and>
   (let b0 = btune_init example_config example_env example_compressors 0
               (Some example_config) example_context None;
        b = snd (run [Next_cparams None, Update 4096 1000 False 0 (1 / 100),
                      Next_cparams None, Update 4096 900 False 0 (1 / 200)]
                   (example_context, b0))
    in 1 \<le> nthreads_comp (best b) \<and> nthreads_comp (best b) \<le> max_threads b \<and>
       1 \<le> nthreads_decomp (best b) \<and> nthreads_decomp (best b) \<le> max_threads b \<and>
       max_threads b = max_threads b0)"
proof -
  have h: "1 \<le> ctx_nthreads example_context" by (simp add: example_context_def)
  from threads_stay_in_range [OF h, of None example_config example_env example_compressors 0
      "Some example_config"
      "[Next_cparams None, Update 4096 1000 False 0 (1 / 100),
        Next_cparams None, Update 4096 900 False 0 (1 / 200)]"] h
  show ?thesis by simp
qed

subsection \<open>The entropy probe reads only its input\<close>

text \<open>
  Two scans over memories that hold the same input bytes read the same values: every
  read of the scan lies inside the first \<open>limit\<close> bytes, as long as the scan goes on.
\<close>

lemma READU32_same:
  "same_bytes n m1 m2 \<Longrightarrow> 0 \<le> p \<Longrightarrow> p + 3 < n \<Longrightarrow> READU32 m1 p = READU32 m2 p"
  by (simp add: READU32_def same_bytes_def)

lemma bytes8_same:
  "same_bytes n m1 m2 \<Longrightarrow> 0 \<le> p \<Longrightarrow> p + 7 < n \<Longrightarrow> bytes8 m1 p = bytes8 m2 p"
  by (simp add: bytes8_def same_bytes_def)

lemma get_run_tail_same:
  "same_bytes n m1 m2 \<Longrightarrow> 0 \<le> ref \<Longrightarrow> ref \<le> i \<Longrightarrow> ip_bound \<le> n \<Longrightarrow>
   get_run_tail m1 x ip_bound i ref = get_run_tail m2 x ip_bound i ref"
proof (induction m1 x ip_bound i ref rule: get_run_tail.induct)
  case (1 m x ip_bound i ref)
  show ?case
  proof (cases "i < ip_bound")
    case True
    with 1 have e: "m ref = m2 ref" by (simp add: same_bytes_def)
    show ?thesis
      using 1 True e
      by (subst get_run_tail.simps [of m], subst get_run_tail.simps [of m2]) simp
  next
    case False
    then show ?thesis
      by (subst get_run_tail.simps [of m], subst get_run_tail.simps [of m2]) simp
  qed
qed

lemma get_run_loop_same:
  "same_bytes n m1 m2 \<Longrightarrow> 0 \<le> ref \<Longrightarrow> ref \<le> i \<Longrightarrow> ip_bound \<le> n \<Longrightarrow>
   get_run_loop m1 x ip_bound i ref = get_run_loop m2 x ip_bound i ref"
proof (induction m1 x ip_bound i ref rule: get_run_loop.induct)
  case (1 m x ip_bound i ref)
  show ?case
  proof (cases "i < ip_bound - 8")
    case True
    with 1 have e: "bytes8 m ref = bytes8 m2 ref" by (intro bytes8_same [of n]) simp_all
    show ?thesis
      using 1 True e
      by (subst get_run_loop.simps [of m], subst get_run_loop.simps [of m2]) simp
  next
    case False
    then show ?thesis
      using 1 get_run_tail_same [of n m m2 ref i ip_bound x]
      by (subst get_run_loop.simps [of m], subst get_run_loop.simps [of m2]) simp
  qed
qed

lemma get_match_tail_same:
  "same_bytes n m1 m2 \<Longrightarrow> 0 \<le> ref \<Longrightarrow> ref \<le> i \<Longrightarrow> ip_bound \<le> n \<Longrightarrow>
   get_match_tail m1 ip_bound i ref = get_match_tail m2 ip_bound i ref"
proof (induction m1 ip_bound i ref rule: get_match_tail.induct)
  case (1 m ip_bound i ref)
  show ?case
  proof (cases "i < ip_bound")
    case True
    with 1 have e: "m ref = m2 ref" "m i = m2 i" by (simp_all add: same_bytes_def)
    show ?thesis
      using 1 True e
      by (subst get_match_tail.simps [of m], subst get_match_tail.simps [of m2]) simp
  next
    case False
    then show ?thesis
      by (subst get_match_tail.simps [of m], subst get_match_tail.simps [of m2]) simp
  qed
qed

lemma get_match_loop_same:
  "same_bytes n m1 m2 \<Longrightarrow> 0 \<le> ref \<Longrightarrow> ref \<le> i \<Longrightarrow> ip_bound \<le> n \<Longrightarrow>
   get_match_loop m1 ip_bound i ref = get_match_loop m2 ip_bound i ref"
proof (induction m1 ip_bound i ref rule: get_match_loop.induct)
  case (1 m ip_bound i ref)
  show ?case
  proof (cases "i < ip_bound - 8")
    case True
    with 1 have e: "bytes8 m ref = bytes8 m2 ref" "bytes8 m i = bytes8 m2 i"
      by (auto intro!: bytes8_same [of n])
    show ?thesis
      using 1 True e
      by (subst get_match_loop.simps [of m], subst get_match_loop.simps [of m2]) simp
  next
    case False
    then show ?thesis
      using 1 get_match_tail_same [of n m m2 ref i ip_bound]
      by (subst get_match_loop.simps [of m], subst get_match_loop.simps [of m2]) simp
  qed
qed

lemma get_run_or_match_same:
  assumes "same_bytes n m1 m2" "0 \<le> ref" "ref \<le> i" "ip_bound \<le> n" "0 < i" "i \<le> n"
  shows "get_run_or_match m1 i ip_bound ref r = get_run_or_match m2 i ip_bound ref r"
proof -
  have x: "m1 (i - 1) = m2 (i - 1)" using assms by (simp add: same_bytes_def)
  show ?thesis
    using assms get_run_loop_same [of n m1 m2 ref i ip_bound "m2 (i - 1)"]
      get_match_loop_same [of n m1 m2 ref i ip_bound]
    by (simp add: get_run_or_match_def get_run_def get_match_def x)
qed

text \<open>A run or match never ends before it starts.\<close>

lemma get_run_tail_ge: "i \<le> get_run_tail m x ip_bound i ref"
proof (induction m x ip_bound i ref rule: get_run_tail.induct)
  case (1 m x ip_bound i ref)
  then show ?case by (subst get_run_tail.simps) auto
qed

lemma get_run_loop_ge: "i \<le> get_run_loop m x ip_bound i ref"
proof (induction m x ip_bound i ref rule: get_run_loop.induct)
  case (1 m x ip_bound i ref)
  then show ?case using get_run_tail_ge [of i m x ip_bound ref]
    by (subst get_run_loop.simps) auto
qed

lemma get_match_tail_ge: "i \<le> get_match_tail m ip_bound i ref"
proof (induction m ip_bound i ref rule: get_match_tail.induct)
  case (1 m ip_bound i ref)
  then show ?case by (subst get_match_tail.simps) auto
qed

lemma get_match_loop_ge: "i \<le> get_match_loop m ip_bound i ref"
proof (induction m ip_bound i ref rule: get_match_loop.induct)
  case (1 m ip_bound i ref)
  then show ?case using get_match_tail_ge [of i m ip_bound ref]
    by (subst get_match_loop.simps) auto
qed

lemma get_run_or_match_ge: "i \<le> get_run_or_match m i ip_bound ref r"
  by (simp add: get_run_or_match_def get_run_def get_match_def get_run_loop_ge get_match_loop_ge)

text \<open>A run or match ends at the bound at the latest.\<close>

lemma get_run_tail_le: "i \<le> ip_bound \<Longrightarrow> get_run_tail m x ip_bound i ref \<le> ip_bound"
proof (induction m x ip_bound i ref rule: get_run_tail.induct)
  case (1 m x ip_bound i ref)
  then show ?case by (subst get_run_tail.simps) auto
qed

lemma takeWhile_bytes8_le: "length (takeWhile P (bytes8 m p)) \<le> 8"
  using length_takeWhile_le [of P "bytes8 m p"] by (simp add: bytes8_def)

lemma get_run_loop_le: "i \<le> ip_bound \<Longrightarrow> get_run_loop m x ip_bound i ref \<le> ip_bound"
proof (induction m x ip_bound i ref rule: get_run_loop.induct)
  case (1 m x ip_bound i ref)
  then show ?case
    using get_run_tail_le [of i ip_bound m x ref]
      takeWhile_bytes8_le [of "\<lambda>b. b = x" m ref]
    by (subst get_run_loop.simps) auto
qed

lemma get_match_tail_le: "i \<le> ip_bound \<Longrightarrow> get_match_tail m ip_bound i ref \<le> ip_bound"
proof (induction m ip_bound i ref rule: get_match_tail.induct)
  case (1 m ip_bound i ref)
  then show ?case by (subst get_match_tail.simps) auto
qed

lemma takeWhile_zip_bytes8_le:
  "length (takeWhile P (zip (bytes8 m p) (bytes8 m q))) \<le> 8"
  using length_takeWhile_le [of P "zip (bytes8 m p) (bytes8 m q)"] by (simp add: bytes8_def)

lemma get_match_loop_le: "i \<le> ip_bound \<Longrightarrow> get_match_loop m ip_bound i ref \<le> ip_bound"
proof (induction m ip_bound i ref rule: get_match_loop.induct)
  case (1 m ip_bound i ref)
  then show ?case
    using get_match_tail_le [of i ip_bound m ref]
      takeWhile_zip_bytes8_le [of "\<lambda>(a, b). a = b" m ref i]
    by (subst get_match_loop.simps) auto
qed

lemma get_run_or_match_le:
  "i \<le> ip_bound \<Longrightarrow> get_run_or_match m i ip_bound ref r \<le> ip_bound"
  by (simp add: get_run_or_match_def get_run_def get_match_def get_run_loop_le get_match_loop_le)


lemma htab_below_mono: "htab_below b t \<Longrightarrow> b \<le> b' \<Longrightarrow> htab_below b' t"
  by (fastforce simp: htab_below_def)

lemma htab_below_upd:
  "htab_below b t \<Longrightarrow> 0 \<le> a \<Longrightarrow> a < b \<Longrightarrow> a < 2 ^ 32 \<Longrightarrow>
   htab_below b (t(h := word_of_int a))"
  by (simp add: htab_below_def uint_word_of_int)

lemma LITERAL2_fields [simp]:
  "ip (LITERAL2 a s) = a + 1" "htab (LITERAL2 a s) = htab s"
  by (simp_all add: LITERAL2_def)

lemma emit_match_fields [simp]:
  "ip (emit_match m i2 len d s) = i2 + 2"
  "htab (emit_match m i2 len d s) = (htab s)(HASH_FUNCTION (READU32 m i2) := word_of_int i2)"
  "oc (emit_match m i2 len d s) =
     (if copy s = 0 then oc s - 1 else oc s) + encode_match len d + 1"
  "copy (emit_match m i2 len d s) = 0"
  by (simp_all add: emit_match_def Let_def)

lemma emit_match_agree: "agree (emit_match m1 i2 len d s) (emit_match m2 i2 len d s)"
  by (simp add: agree_def emit_match_def Let_def)

lemma emit_match_same:
  "same_bytes n m1 m2 \<Longrightarrow> 0 \<le> i2 \<Longrightarrow> i2 + 3 < n \<Longrightarrow>
   emit_match m1 i2 len d s = emit_match m2 i2 len d s"
  using READU32_same [of n m1 m2 i2] by (simp add: emit_match_def)

lemma try_match_same:
  assumes sb: "same_bytes n m1 m2" and r: "0 \<le> ref" "ref < anchor" and a: "anchor < n - 12"
    and ml: "0 \<le> minlen"
  shows "agree (try_match m1 minlen ipshift (n - 1) anchor ref d s)
               (try_match m2 minlen ipshift (n - 1) anchor ref d s)"
    and "anchor < ip (try_match m1 minlen ipshift (n - 1) anchor ref d s)"
    and "ip (try_match m1 minlen ipshift (n - 1) anchor ref d s) < n - 12 \<Longrightarrow>
         try_match m1 minlen ipshift (n - 1) anchor ref d s =
         try_match m2 minlen ipshift (n - 1) anchor ref d s"
    and "ip (try_match m1 minlen ipshift (n - 1) anchor ref d s) < n - 12 \<Longrightarrow>
         n \<le> 2 ^ 32 \<Longrightarrow> htab_below (anchor + 1) (htab s) \<Longrightarrow>
         htab_below (ip (try_match m1 minlen ipshift (n - 1) anchor ref d s))
           (htab (try_match m1 minlen ipshift (n - 1) anchor ref d s))"
proof -
  let ?i1 = "get_run_or_match m1 (anchor + 4) (n - 1) (ref + 4) (d - 1 = 0)"
  have e: "get_run_or_match m2 (anchor + 4) (n - 1) (ref + 4) f =
      get_run_or_match m1 (anchor + 4) (n - 1) (ref + 4) f" for f
    using get_run_or_match_same [of n m1 m2 "ref + 4" "anchor + 4" "n - 1" f]
      sb r a by simp
  show "agree (try_match m1 minlen ipshift (n - 1) anchor ref d s)
              (try_match m2 minlen ipshift (n - 1) anchor ref d s)"
    by (simp add: try_match_def Let_def e emit_match_agree agree_def)
  show "anchor < ip (try_match m1 minlen ipshift (n - 1) anchor ref d s)"
    using ml by (simp add: try_match_def Let_def)
  show "try_match m1 minlen ipshift (n - 1) anchor ref d s =
        try_match m2 minlen ipshift (n - 1) anchor ref d s"
    if "ip (try_match m1 minlen ipshift (n - 1) anchor ref d s) < n - 12"
  proof (cases "?i1 - ipshift - anchor < minlen")
    case True
    then show ?thesis by (simp add: try_match_def Let_def e)
  next
    case False
    with that have "?i1 - ipshift + 2 < n - 12" by (simp add: try_match_def Let_def)
    moreover from False ml r have "0 \<le> ?i1 - ipshift" by simp
    ultimately have "emit_match m1 (?i1 - ipshift) (?i1 - ipshift - anchor) (d - 1) s =
        emit_match m2 (?i1 - ipshift) (?i1 - ipshift - anchor) (d - 1) s"
      using emit_match_same [OF sb, of "?i1 - ipshift"] by simp
    with False show ?thesis by (simp add: try_match_def Let_def e)
  qed
  show "htab_below (ip (try_match m1 minlen ipshift (n - 1) anchor ref d s))
           (htab (try_match m1 minlen ipshift (n - 1) anchor ref d s))"
    if "ip (try_match m1 minlen ipshift (n - 1) anchor ref d s) < n - 12"
      and n: "n \<le> 2 ^ 32" and hb: "htab_below (anchor + 1) (htab s)"
  proof (cases "?i1 - ipshift - anchor < minlen")
    case True
    then show ?thesis using hb by (simp add: try_match_def Let_def)
  next
    case False
    with that(1) have lt: "?i1 - ipshift + 2 < n - 12" by (simp add: try_match_def Let_def)
    from False ml r have ge: "anchor \<le> ?i1 - ipshift" by simp
    have "htab_below (?i1 - ipshift + 2) (htab s)"
      using htab_below_mono [OF hb] ge by simp
    then have "htab_below (?i1 - ipshift + 2)
        ((htab s)(HASH_FUNCTION (READU32 m1 (?i1 - ipshift)) := word_of_int (?i1 - ipshift)))"
      using ge r lt n by (intro htab_below_upd) simp_all
    with False show ?thesis by (simp add: try_match_def Let_def)
  qed
qed


lemma try_match_le:
  "anchor < n - 12 \<Longrightarrow>
   ip (try_match m minlen ipshift (n - 1) anchor ref d s) \<le> max (anchor + 1) (n + 1 - ipshift)"
  using get_run_or_match_le [of "anchor + 4" "n - 1" m "ref + 4" "d - 1 = 0"]
  by (auto simp: try_match_def Let_def max_def)

lemma probe_step_le:
  "ip s < n - 12 \<Longrightarrow>
   ip (probe_step m minlen ipshift (n - 1) s) \<le> max (ip s + 1) (n + 1 - ipshift)"
  using try_match_le [of "ip s" n m minlen ipshift]
  by (simp add: probe_step_def Let_def)

lemma probe_step_same:
  assumes sb: "same_bytes n m1 m2" and inv: "probe_inv s" and lt: "ip s < n - 12"
    and ml: "0 \<le> minlen" and n: "n \<le> 2 ^ 32"
  shows "agree (probe_step m1 minlen ipshift (n - 1) s) (probe_step m2 minlen ipshift (n - 1) s)"
    and "ip s < ip (probe_step m1 minlen ipshift (n - 1) s)"
    and "ip (probe_step m1 minlen ipshift (n - 1) s) < n - 12 \<Longrightarrow>
         probe_step m1 minlen ipshift (n - 1) s = probe_step m2 minlen ipshift (n - 1) s \<and>
         probe_inv (probe_step m1 minlen ipshift (n - 1) s)"
proof -
  let ?a = "ip s"
  let ?h = "HASH_FUNCTION (READU32 m1 ?a)"
  let ?ref = "uint (htab s ?h)"
  let ?d = "word_of_int (?a - ?ref) :: 32 word"
  let ?s1 = "s\<lparr> htab := (htab s)(?h := word_of_int ?a) \<rparr>"
  from inv have a0: "0 \<le> ?a" and hb: "htab_below ?a (htab s)"
    by (simp_all add: probe_inv_def)
  from lt n have a32: "?a < 2 ^ 32" by simp
  have r1: "READU32 m2 ?a = READU32 m1 ?a"
    using READU32_same [OF sb, of ?a] a0 lt by simp
  have hb1: "htab_below (?a + 1) (htab ?s1)"
    using htab_below_upd [OF htab_below_mono [OF hb, of "?a + 1"], of ?a ?h] a0 a32 by simp
  have ref_le: "0 \<le> ?ref" "?ref \<le> ?a"
    using hb a0 by (auto simp: htab_below_def dest: spec [of _ ?h])
  have lit: "agree (LITERAL2 ?a ?s1) (LITERAL2 ?a ?s1)" "?a < ip (LITERAL2 ?a ?s1)"
    "probe_inv (LITERAL2 ?a ?s1)"
    using hb1 a0 by (simp_all add: agree_def probe_inv_def)
  show "agree (probe_step m1 minlen ipshift (n - 1) s) (probe_step m2 minlen ipshift (n - 1) s)"
    and "ip s < ip (probe_step m1 minlen ipshift (n - 1) s)"
    and "ip (probe_step m1 minlen ipshift (n - 1) s) < n - 12 \<Longrightarrow>
         probe_step m1 minlen ipshift (n - 1) s = probe_step m2 minlen ipshift (n - 1) s \<and>
         probe_inv (probe_step m1 minlen ipshift (n - 1) s)"
  proof (atomize (full), cases "?d = 0 \<or> ?d \<ge> MAX_FARDISTANCE")
    case True
    then have "probe_step m1 minlen ipshift (n - 1) s = LITERAL2 ?a ?s1"
      "probe_step m2 minlen ipshift (n - 1) s = LITERAL2 ?a ?s1"
      by (simp_all add: probe_step_def Let_def r1)
    with lit show "agree (probe_step m1 minlen ipshift (n - 1) s)
          (probe_step m2 minlen ipshift (n - 1) s) \<and>
        ip s < ip (probe_step m1 minlen ipshift (n - 1) s) \<and>
        (ip (probe_step m1 minlen ipshift (n - 1) s) < n - 12 \<longrightarrow>
         probe_step m1 minlen ipshift (n - 1) s = probe_step m2 minlen ipshift (n - 1) s \<and>
         probe_inv (probe_step m1 minlen ipshift (n - 1) s))"
      by simp
  next
    case False
    then have "?d \<noteq> 0" by simp
    have "?ref \<noteq> ?a"
    proof
      assume "?ref = ?a"
      then have "?d = 0" by simp
      with \<open>?d \<noteq> 0\<close> show False by simp
    qed
    with ref_le have ref_lt: "?ref < ?a" by simp
    have r2: "READU32 m2 ?ref = READU32 m1 ?ref"
      using READU32_same [OF sb, of ?ref] ref_le ref_lt lt by simp
    show "agree (probe_step m1 minlen ipshift (n - 1) s)
          (probe_step m2 minlen ipshift (n - 1) s) \<and>
        ip s < ip (probe_step m1 minlen ipshift (n - 1) s) \<and>
        (ip (probe_step m1 minlen ipshift (n - 1) s) < n - 12 \<longrightarrow>
         probe_step m1 minlen ipshift (n - 1) s = probe_step m2 minlen ipshift (n - 1) s \<and>
         probe_inv (probe_step m1 minlen ipshift (n - 1) s))"
    proof (cases "READU32 m1 ?ref \<noteq> READU32 m1 ?a")
      case True
      with False have "probe_step m1 minlen ipshift (n - 1) s = LITERAL2 ?a ?s1"
        "probe_step m2 minlen ipshift (n - 1) s = LITERAL2 ?a ?s1"
        by (simp_all add: probe_step_def Let_def r1 r2)
      with lit show ?thesis by simp
    next
      case match: False
      let ?t1 = "try_match m1 minlen ipshift (n - 1) ?a ?ref ?d ?s1"
      let ?t2 = "try_match m2 minlen ipshift (n - 1) ?a ?ref ?d ?s1"
      from False match have p: "probe_step m1 minlen ipshift (n - 1) s = ?t1"
        "probe_step m2 minlen ipshift (n - 1) s = ?t2"
        by (simp_all add: probe_step_def Let_def r1 r2)
      note t = try_match_same [OF sb ref_le(1) ref_lt lt ml, of ipshift ?d ?s1]
      have "probe_inv ?t1" if "ip ?t1 < n - 12"
        using t(4) [OF that n hb1] t(2) a0 by (simp add: probe_inv_def)
      with t(1,2,3) show ?thesis unfolding p by simp
    qed
  qed
qed


lemma probe_loop_same:
  assumes sb: "same_bytes n m1 m2" and ml: "0 \<le> minlen" and n: "n \<le> 2 ^ 32"
  shows "agree s1 s2 \<Longrightarrow> (ip s1 < n - 12 \<Longrightarrow> s1 = s2 \<and> probe_inv s1) \<Longrightarrow>
         \<exists>r1 r2. probe_loop m1 minlen ipshift n s1 = Some r1 \<and>
                 probe_loop m2 minlen ipshift n s2 = Some r2 \<and> agree r1 r2 \<and>
                 ip s1 \<le> ip r1 \<and> n - 12 \<le> ip r1 \<and>
                 ip r1 \<le> max (ip s1) (max (n - 12) (n + 1 - ipshift))"
proof (induction "nat (n - 12 - ip s1)" arbitrary: s1 s2 rule: less_induct)
  case less
  show ?case
  proof (cases "ip s1 < n - 12")
    case False
    with less.prems(1) have "\<not> ip s2 < n - 12" by (simp add: agree_def)
    with False less.prems(1) show ?thesis
      by (subst probe_loop.simps, subst (2) probe_loop.simps) simp
  next
    case True
    from less.prems(2) [OF True] have eq: "s1 = s2" and inv: "probe_inv s1" by blast+
    let ?t1 = "probe_step m1 minlen ipshift (n - 1) s1"
    let ?t2 = "probe_step m2 minlen ipshift (n - 1) s1"
    note st = probe_step_same [OF sb inv True ml n, of ipshift]
    have "nat (n - 12 - ip ?t1) < nat (n - 12 - ip s1)" using st(2) True by simp
    from less.hyps [OF this st(1)] st(3)
    obtain r1 r2 where r: "probe_loop m1 minlen ipshift n ?t1 = Some r1"
      "probe_loop m2 minlen ipshift n ?t2 = Some r2" "agree r1 r2" "ip ?t1 \<le> ip r1"
      "n - 12 \<le> ip r1" "ip r1 \<le> max (ip ?t1) (max (n - 12) (n + 1 - ipshift))"
      by blast
    have "probe_loop m1 minlen ipshift n s1 = Some r1"
      using True r(1) by (subst probe_loop.simps) simp
    moreover have "probe_loop m2 minlen ipshift n s2 = Some r2"
      using True r(2) eq by (subst probe_loop.simps) simp
    ultimately show ?thesis
      using r(3,4,5,6) st(2) True probe_step_le [OF True, of m1 minlen ipshift] by auto
  qed
qed

lemma probe_inv_start: "probe_inv probe_start"
  by (simp add: probe_inv_def probe_start_def htab_below_def)

lemma probe_limit_bounds: "0 \<le> probe_limit maxlen" "probe_limit maxlen < 2 ^ 16"
  by (simp_all add: probe_limit_def HASH_LOG_def)

lemma probe_limit_min:
  "0 \<le> maxlen \<Longrightarrow> probe_limit maxlen = min maxlen (2 ^ HASH_LOG)"
  by (simp add: probe_limit_def HASH_LOG_def)

lemma probe_scan_same:
  assumes "same_bytes (probe_limit maxlen) m1 m2" and "0 \<le> minlen"
  shows "\<exists>r1 r2. probe_scan m1 maxlen minlen ipshift = Some r1 \<and>
                 probe_scan m2 maxlen minlen ipshift = Some r2 \<and> agree r1 r2 \<and>
                 0 \<le> ip r1 \<and> probe_limit maxlen - 12 \<le> ip r1 \<and>
                 ip r1 \<le> max 0 (max (probe_limit maxlen - 12)
                                    (probe_limit maxlen + 1 - ipshift))"
proof -
  have n: "probe_limit maxlen \<le> 2 ^ 32"
    using probe_limit_bounds(2) [of maxlen] by simp
  have a: "agree probe_start probe_start" by (simp add: agree_def)
  from probe_loop_same [OF assms n a, of ipshift] probe_inv_start
  show ?thesis by (simp add: probe_scan_def probe_start_def)
qed


lemma same_bytes_refl [simp]: "same_bytes n m m"
  by (simp add: same_bytes_def)

lemma probe_scan_short:
  "probe_limit maxlen \<le> 12 \<Longrightarrow> probe_scan m maxlen minlen ipshift = Some probe_start"
  by (simp add: probe_scan_def probe_loop.simps probe_start_def)

text \<open>
  Claim C8, as amended. \<^verbatim>\<open>get_cratio\<close> returns the number of input bytes that its scan
  consumed (the final position \<^verbatim>\<open>ip - ibase\<close>) divided by the output counter. With
  \<open>limit\<close> the input length truncated to the hash window, the consumed count is 0 when
  \<open>limit \<le> 12\<close> and at least \<open>limit - 12\<close> otherwise; for \<open>ipshift \<ge> 3\<close> it is at most
  \<open>limit - 2\<close>, so it is not the input length. (\<open>minlen \<ge> 0\<close> makes the scan advance.)
\<close>

theorem get_cratio_consumed_over_output:
  assumes "0 \<le> minlen"
  shows "\<exists>s. probe_scan m maxlen minlen ipshift = Some s \<and>
             get_cratio m maxlen minlen ipshift = Some (real_of_int (ip s) / real_of_int (oc s)) \<and>
             0 \<le> ip s \<and> probe_limit maxlen - 12 \<le> ip s \<and>
             (probe_limit maxlen \<le> 12 \<longrightarrow> ip s = 0) \<and>
             (3 \<le> ipshift \<longrightarrow> ip s \<le> max 0 (probe_limit maxlen - 2))"
proof -
  obtain r where r: "probe_scan m maxlen minlen ipshift = Some r" "0 \<le> ip r"
    "probe_limit maxlen - 12 \<le> ip r"
    "ip r \<le> max 0 (max (probe_limit maxlen - 12) (probe_limit maxlen + 1 - ipshift))"
    using probe_scan_same [of maxlen m m minlen ipshift] assms by auto
  have "ip r = 0" if "probe_limit maxlen \<le> 12"
    using probe_scan_short [OF that, of m minlen ipshift] r(1) by (simp add: probe_start_def)
  with r show ?thesis by (auto simp: get_cratio_def)
qed

theorem get_cratio_consumed_over_output_witness:
  "(0::int) \<le> 3 \<and>
   (\<exists>s. probe_scan zeros16 16 3 3 = Some s \<and>
        get_cratio zeros16 16 3 3 = Some (real_of_int (ip s) / real_of_int (oc s)) \<and>
        4 \<le> ip s \<and> ip s \<le> 14)"
proof -
  have l: "probe_limit 16 = 16" by (simp add: probe_limit_def HASH_LOG_def)
  from get_cratio_consumed_over_output [of 3 zeros16 16 3] show ?thesis
    by (auto simp: l)
qed

text \<open>
  Claim C8 as stated fails: on sixteen zero bytes the scan ends at position 14 with
  the output counter at 10, and the result is \<open>14 / 10\<close>, not \<open>16 / 10\<close>.
\<close>

theorem get_cratio_not_input_len:
  "map_option ip (probe_scan zeros16 16 3 3) = Some 14 \<and>
   map_option oc (probe_scan zeros16 16 3 3) = Some 10 \<and>
   get_cratio zeros16 16 3 3 = Some (14 / 10) \<and>
   get_cratio zeros16 16 3 3 \<noteq> Some (16 / 10)"
  by code_simp

text \<open>
  Claim C9. The probe is deterministic: the hash table is zeroed at each call, and
  the result depends on nothing but the input bytes, the length, \<open>minlen\<close> and
  \<open>ipshift\<close>. Two calls of \<^verbatim>\<open>get_cratio\<close> whose memories hold the same input bytes
  (whatever else they hold) both return, with the same ratio, for every \<open>ipshift\<close> and
  every \<open>minlen \<ge> 0\<close>; so do two calls of the encoder, with the same size estimate.
\<close>

theorem get_cratio_deterministic:
  assumes "same_bytes (probe_limit maxlen) m1 m2"
  shows "(0 \<le> minlen \<longrightarrow>
            get_cratio m1 maxlen minlen ipshift = get_cratio m2 maxlen minlen ipshift \<and>
            get_cratio m1 maxlen minlen ipshift \<noteq> None) \<and>
         encoder u m1 maxlen = encoder u m2 maxlen \<and> encoder u m1 maxlen \<noteq> None"
proof -
  have g: "get_cratio m1 maxlen k j = get_cratio m2 maxlen k j \<and>
      get_cratio m1 maxlen k j \<noteq> None" if "0 \<le> k" for k j
    using probe_scan_same [OF assms that, of j] by (auto simp: get_cratio_def agree_def)
  from g [of 3 3] obtain c where c: "get_cratio m1 maxlen 3 3 = Some c"
    "get_cratio m2 maxlen 3 3 = Some c"
    by (cases "get_cratio m1 maxlen 3 3") auto
  have "encoder u m1 maxlen = encoder u m2 maxlen \<and> encoder u m1 maxlen \<noteq> None"
    by (simp add: encoder_def Let_def c)
  with g [of minlen ipshift] show ?thesis by blast
qed

theorem get_cratio_deterministic_witness:
  "same_bytes (probe_limit 16) zeros16 zeros16_then_ones \<and>
   zeros16 16 \<noteq> zeros16_then_ones 16 \<and>
   get_cratio zeros16 16 3 3 = get_cratio zeros16_then_ones 16 3 3 \<and>
   encoder 0 zeros16 16 = encoder 0 zeros16_then_ones 16"
proof -
  have s: "same_bytes (probe_limit 16) zeros16 zeros16_then_ones"
    by (auto simp: same_bytes_def probe_limit_def HASH_LOG_def zeros16_def
        zeros16_then_ones_def buffer_def nth_append)
  have d: "zeros16 16 \<noteq> zeros16_then_ones 16"
    by (simp add: zeros16_def zeros16_then_ones_def buffer_def nth_append)
  from get_cratio_deterministic [OF s, of 3 3 0] s d show ?thesis by simp
qed

text \<open>
  Claim C10. For every input the encoder returns, and the estimate that it returns
  is at most \<^verbatim>\<open>input_len\<close>, whatever the platform makes of an undefined conversion.
\<close>

theorem encoder_at_most_input_len:
  "\<exists>cbytes. encoder u input input_len = Some cbytes \<and> cbytes \<le> input_len"
proof -
  obtain r where "probe_scan input input_len 3 3 = Some r"
    using probe_scan_same [of input_len input input 3 3] by auto
  then show ?thesis by (simp add: encoder_def get_cratio_def Let_def)
qed

theorem encoder_at_most_input_len_witness:
  "(\<exists>cbytes. encoder (- (2 ^ 31)) zeros16 16 = Some cbytes \<and> cbytes \<le> 16) \<and>
   encoder (- (2 ^ 31)) zeros16 16 = Some 11"
proof -
  have "encoder (- (2 ^ 31)) zeros16 16 = Some 11" by code_simp
  with encoder_at_most_input_len [of "- (2 ^ 31)" zeros16 16] show ?thesis by simp
qed

end
